theory Spec2Isabelle
  imports Complex_Main "HOL-Library.List_Lexorder" "HOL-Library.Char_ord"
begin

section \<open>Data model\<close>

text \<open>
  The three scripts of GOVHACK read a CSV file into a pandas DataFrame, look every row's
  coordinates up at a reverse-geocoding service and add markers or circles to a folium map.
  A cell of the DataFrame is a string, a number or pandas' missing value. The scripts do no
  arithmetic on the numbers (they are handed on to the service and to folium as they are),
  so a number is modelled by a real.
\<close>

datatype cell = Str string | Num real | NaN

text \<open>One row as \<open>iterrows\<close> yields it: a Series, column label to cell.\<close>

type_synonym series = "string \<rightharpoonup> cell"

record dataframe =
  columns :: "string list"
  data :: "series list"

type_synonym coordinates = "cell \<times> cell"

text \<open>geopy's \<open>Location\<close>; the scripts read its \<open>address\<close> only.\<close>

datatype location = Location (address: string)

text \<open>
  The exceptions the scripts name, and one constructor for every other exception.
\<close>

datatype exn =
  GeocoderTimedOut | GeocoderUnavailable | KeyError string | IndexError | ValueError
  | OtherException

text \<open>
  What one call \<open>geolocator.reverse(coordinates, timeout=timeout)\<close> does: it returns a
  \<open>Location\<close> or \<open>None\<close>, or it raises. The service is outside the program, so it is a
  parameter: a transition function on a state \<open>'g\<close> of the service's own.
\<close>

datatype reverse_result = Returns "location option" | Raises exn

type_synonym 'g geolocator = "'g \<Rightarrow> coordinates \<Rightarrow> int \<Rightarrow> reverse_result \<times> 'g"

text \<open>
  The effects in time: a call of the service (with what it answered) and a
  \<open>time.sleep\<close> (with its argument).
\<close>

datatype effect = Reverse coordinates int reverse_result | Sleep nat

text \<open>
  The lines printed. A message keeps the data its f-string formats:
  \<^item> \<open>Timed_out_msg n\<close>: "Geocoding service timed out on attempt n. Retrying..."
  \<^item> \<open>Unavailable_msg\<close>: "Geocoding service is unavailable: e"
  \<^item> \<open>Marker_added_msg name\<close>: "Marker for name added to the map"
  \<^item> \<open>Circles_added_msg name\<close>: "Circles for name added to the map"
  \<^item> \<open>Column_not_found_msg k\<close>: "Column not found: k"
  \<^item> \<open>Index_error_msg\<close>: "Index error: e. Skipping this row."
  \<^item> \<open>Columns_msg\<close>, \<open>First_rows_msg\<close>, \<open>Head_msg\<close>: the three debugging prints
  \<^item> \<open>Saved_msg f\<close>: "Combined map saved as f" or "Highlighted map saved as f"
\<close>

datatype message =
  Timed_out_msg nat | Unavailable_msg | Marker_added_msg cell | Circles_added_msg cell
  | Column_not_found_msg string | Index_error_msg
  | Columns_msg "string list" | First_rows_msg | Head_msg "series list" | Saved_msg string

text \<open>
  The map document: folium's \<open>Map\<close> with the annotations added to it, in order.
  \<open>Marker\<close> has a location and an optional popup (text and \<open>max_width\<close>); \<open>Circle\<close>
  has a location, radius, color, fill, fill_color and fill_opacity.
\<close>

datatype popup = Popup string nat

datatype annotation =
  Marker coordinates "popup option"
  | Circle coordinates nat string bool string real

record folium_map =
  location :: "int \<times> int"
  zoom_start :: nat
  children :: "annotation list"

text \<open>
  The state a run works on: the service, the map object, the effects in time so far,
  the lines printed so far and the files written so far.
\<close>

record 'g state =
  service :: 'g
  map_obj :: folium_map
  effects :: "effect list"
  stdout :: "message list"
  files :: "(string \<times> folium_map) list"

section \<open>The functions both map scripts share\<close>

text \<open>\<open>create_map\<close> (Combined\_Map\_Crocs\_Dataset.py and highlighted\_map.py, line 7).\<close>

definition create_map :: folium_map where
  "create_map = \<lparr>location = (0, 0), zoom_start = 2, children = []\<rparr>"

text \<open>
  \<open>reverse_geocode_with_retry\<close> (the same text in both scripts). The loop
  \<open>for attempt in range(retries)\<close> runs over the attempts left; leaving the loop, by its
  end or by \<open>break\<close>, returns \<open>None\<close>. An exception that is neither
  \<open>GeocoderTimedOut\<close> nor \<open>GeocoderUnavailable\<close> leaves the function.
\<close>

fun retry_loop ::
  "'g geolocator \<Rightarrow> coordinates \<Rightarrow> int \<Rightarrow> nat list \<Rightarrow> 'g state
    \<Rightarrow> (exn + location option) \<times> 'g state" where
  "retry_loop geo coords timeout [] s = (Inr None, s)"
| "retry_loop geo coords timeout (attempt # rest) s =
     (case geo (service s) coords timeout of (r, g) \<Rightarrow>
        let s1 = s\<lparr>service := g, effects := effects s @ [Reverse coords timeout r]\<rparr> in
        case r of
          Returns loc \<Rightarrow> (Inr loc, s1)
        | Raises e \<Rightarrow>
            if e = GeocoderTimedOut then
              retry_loop geo coords timeout rest
                (s1\<lparr>stdout := stdout s1 @ [Timed_out_msg (attempt + 1)],
                    effects := effects s1 @ [Sleep (2 ^ attempt)]\<rparr>)
            else if e = GeocoderUnavailable then
              (Inr None, s1\<lparr>stdout := stdout s1 @ [Unavailable_msg]\<rparr>)
            else (Inl e, s1))"

text \<open>\<open>range(retries)\<close> is \<open>0, ..., retries - 1\<close>, and empty when \<open>retries \<le> 0\<close>.\<close>

definition reverse_geocode_with_retry ::
  "'g geolocator \<Rightarrow> coordinates \<Rightarrow> int \<Rightarrow> int \<Rightarrow> 'g state
    \<Rightarrow> (exn + location option) \<times> 'g state" where
  "reverse_geocode_with_retry geo coords retries timeout s =
     retry_loop geo coords timeout [0..<nat retries] s"

text \<open>
  \<open>range(start, stop, step)\<close> as Python computes it: a zero step raises \<open>ValueError\<close>;
  otherwise the range has \<open>(stop - start + step - 1) // step\<close> elements for a positive
  step (none when that is negative), and likewise downwards for a negative step.
\<close>

definition py_range :: "int \<Rightarrow> int \<Rightarrow> int \<Rightarrow> exn + int list" where
  "py_range first stop step =
     (if step = 0 then Inl ValueError
      else if 0 < step then
        Inr (map (\<lambda>k. first + int k * step) [0..<nat ((stop - first + step - 1) div step)])
      else
        Inr (map (\<lambda>k. first + int k * step) [0..<nat ((first - stop - step - 1) div (- step))]))"

text \<open>
  \<open>df.iloc[first:stop]\<close>: a negative bound counts from the end, and both bounds are
  clipped to the length.
\<close>

definition slice_bound :: "int \<Rightarrow> int \<Rightarrow> int" where
  "slice_bound i n = (if i < 0 then max 0 (i + n) else min i n)"

definition iloc :: "'a list \<Rightarrow> int \<Rightarrow> int \<Rightarrow> 'a list" where
  "iloc xs first stop =
     (let n = int (length xs); a = slice_bound first n; b = slice_bound stop n
      in take (nat (b - a)) (drop (nat a) xs))"

text \<open>\<open>row[k]\<close>: a label the Series does not have raises \<open>KeyError\<close>.\<close>

definition getitem :: "series \<Rightarrow> string \<Rightarrow> exn + cell" where
  "getitem row k = (case row k of None \<Rightarrow> Inl (KeyError k) | Some v \<Rightarrow> Inr v)"

text \<open>\<open>time.sleep(n)\<close>.\<close>

definition sleep :: "nat \<Rightarrow> 'g state \<Rightarrow> 'g state" where
  "sleep n s = s\<lparr>effects := effects s @ [Sleep n]\<rparr>"

text \<open>
  folium checks the location of a marker or a circle before it adds anything: each of the
  two coordinates must convert with \<open>float(...)\<close>, and the result must not be \<open>NaN\<close>;
  otherwise \<open>ValueError\<close> is raised. The location kept is the pair of floats. What
  \<open>float\<close> makes of a string is Python's own, so it is a parameter: \<open>to_float s\<close> is the
  number \<open>float(s)\<close> is, and \<open>None\<close> when \<open>float(s)\<close> raises or is \<open>NaN\<close>.
\<close>

type_synonym py_float = "string \<Rightarrow> real option"

definition validate_coord :: "py_float \<Rightarrow> cell \<Rightarrow> exn + real" where
  "validate_coord to_float c =
     (case c of
        Num x \<Rightarrow> Inr x
      | NaN \<Rightarrow> Inl ValueError
      | Str t \<Rightarrow> (case to_float t of Some x \<Rightarrow> Inr x | None \<Rightarrow> Inl ValueError))"

definition validate_location :: "py_float \<Rightarrow> cell \<Rightarrow> cell \<Rightarrow> exn + coordinates" where
  "validate_location to_float lat lon =
     (case validate_coord to_float lat of Inl e \<Rightarrow> Inl e | Inr x \<Rightarrow>
      case validate_coord to_float lon of Inl e \<Rightarrow> Inl e | Inr y \<Rightarrow> Inr (Num x, Num y))"

section \<open>Combined\_Map\_Crocs\_Dataset.py\<close>

text \<open>
  \<open>add_marker_to_map\<close>: one marker, its popup the text "Address: " and the address;
  \<open>ValueError\<close>, and no marker, when folium refuses the location.
\<close>

definition add_marker_to_map ::
  "py_float \<Rightarrow> folium_map \<Rightarrow> cell \<Rightarrow> cell \<Rightarrow> string \<Rightarrow> exn + folium_map" where
  "add_marker_to_map to_float m lat lon addr =
     (case validate_location to_float lat lon of
        Inl e \<Rightarrow> Inl e
      | Inr loc \<Rightarrow>
          Inr (m\<lparr>children := children m @
                  [Marker loc (Some (Popup (''Address: '' @ addr) 300))]\<rparr>))"

text \<open>
  The body of the \<open>try\<close> of \<open>process_csv\<close> (lines 90 to 102): the three fields are read
  first, then the address is looked up (with the defaults \<open>retries=3\<close>, \<open>timeout=10\<close>),
  then the marker is added.
\<close>

definition combined_row_body ::
  "'g geolocator \<Rightarrow> py_float \<Rightarrow> series \<Rightarrow> 'g state \<Rightarrow> (exn + unit) \<times> 'g state" where
  "combined_row_body geo to_float row s =
     (case getitem row ''name'' of Inl e \<Rightarrow> (Inl e, s) | Inr name \<Rightarrow>
      case getitem row ''latitude'' of Inl e \<Rightarrow> (Inl e, s) | Inr lat \<Rightarrow>
      case getitem row ''longitude'' of Inl e \<Rightarrow> (Inl e, s) | Inr lon \<Rightarrow>
      case reverse_geocode_with_retry geo (lat, lon) 3 10 s of
        (Inl e, s1) \<Rightarrow> (Inl e, s1)
      | (Inr loc, s1) \<Rightarrow>
          let addr = (case loc of Some l \<Rightarrow> address l | None \<Rightarrow> ''Address not found'')
          in case add_marker_to_map to_float (map_obj s1) lat lon addr of
               Inl e \<Rightarrow> (Inl e, s1)
             | Inr m \<Rightarrow>
                 (Inr (), s1\<lparr>map_obj := m, stdout := stdout s1 @ [Marker_added_msg name]\<rparr>))"

text \<open>
  The \<open>try\<close> with its handler: \<open>except KeyError\<close> prints and goes on; any other
  exception, folium's \<open>ValueError\<close> too, leaves the loop.
\<close>

definition combined_row ::
  "'g geolocator \<Rightarrow> py_float \<Rightarrow> series \<Rightarrow> 'g state \<Rightarrow> (exn + unit) \<times> 'g state" where
  "combined_row geo to_float row s =
     (case combined_row_body geo to_float row s of
        (Inr u, s1) \<Rightarrow> (Inr (), s1)
      | (Inl e, s1) \<Rightarrow>
          (case e of
             KeyError k \<Rightarrow> (Inr (), s1\<lparr>stdout := stdout s1 @ [Column_not_found_msg k]\<rparr>)
           | _ \<Rightarrow> (Inl e, s1)))"

text \<open>\<open>for index, row in batch_df.iterrows()\<close>.\<close>

fun combined_rows ::
  "'g geolocator \<Rightarrow> py_float \<Rightarrow> series list \<Rightarrow> 'g state \<Rightarrow> (exn + unit) \<times> 'g state" where
  "combined_rows geo to_float [] s = (Inr (), s)"
| "combined_rows geo to_float (row # rows) s =
     (case combined_row geo to_float row s of
        (Inl e, s1) \<Rightarrow> (Inl e, s1)
      | (Inr u, s1) \<Rightarrow> combined_rows geo to_float rows s1)"

text \<open>
  \<open>for start in range(0, len(df), batch_size)\<close>, over the starts left: the batch is
  \<open>df.iloc[start:end]\<close>, and \<open>time.sleep(2)\<close> ends every pass of the loop.
\<close>

fun combined_batches ::
  "'g geolocator \<Rightarrow> py_float \<Rightarrow> series list \<Rightarrow> int \<Rightarrow> int list \<Rightarrow> 'g state
    \<Rightarrow> (exn + unit) \<times> 'g state" where
  "combined_batches geo to_float df batch_size [] s = (Inr (), s)"
| "combined_batches geo to_float df batch_size (first # starts) s =
     (let stop = min (first + batch_size) (int (length df));
          batch_df = iloc df first stop
      in case combined_rows geo to_float batch_df s of
           (Inl e, s1) \<Rightarrow> (Inl e, s1)
         | (Inr u, s1) \<Rightarrow> combined_batches geo to_float df batch_size starts (sleep 2 s1))"

text \<open>
  \<open>process_csv\<close>. The DataFrame \<open>pd.read_csv\<close> returned is the input. An exception that
  leaves the function ends the script there: the map is not saved.
\<close>

definition combined_process_csv ::
  "'g geolocator \<Rightarrow> py_float \<Rightarrow> dataframe \<Rightarrow> int \<Rightarrow> 'g state \<Rightarrow> (exn + unit) \<times> 'g state" where
  "combined_process_csv geo to_float df batch_size s =
     (let s1 = s\<lparr>stdout := stdout s @ [Columns_msg (columns df), First_rows_msg,
                                        Head_msg (take 5 (data df))]\<rparr>;
          s2 = s1\<lparr>map_obj := create_map\<rparr>
      in case py_range 0 (int (length (data df))) batch_size of
           Inl e \<Rightarrow> (Inl e, s2)
         | Inr starts \<Rightarrow>
             (case combined_batches geo to_float (data df) batch_size starts s2 of
                (Inl e, s3) \<Rightarrow> (Inl e, s3)
              | (Inr u, s3) \<Rightarrow>
                  (Inr (), s3\<lparr>files := files s3 @ [(''combined_map.html'', map_obj s3)],
                             stdout := stdout s3 @ [Saved_msg ''combined_map.html'']\<rparr>)))"

section \<open>highlighted\_map.py\<close>

text \<open>
  \<open>add_circle_to_map\<close>: a red circle of radius 200, then an orange one of radius 500;
  \<open>ValueError\<close>, and no circle, when folium refuses the location.
\<close>

definition add_circle_to_map :: "py_float \<Rightarrow> folium_map \<Rightarrow> cell \<Rightarrow> cell \<Rightarrow> exn + folium_map" where
  "add_circle_to_map to_float m lat lon =
     (case validate_location to_float lat lon of
        Inl e \<Rightarrow> Inl e
      | Inr loc \<Rightarrow>
          let m1 = m\<lparr>children := children m @ [Circle loc 200 ''red'' True ''red'' 0.3]\<rparr>
          in case validate_location to_float lat lon of
               Inl e \<Rightarrow> Inl e
             | Inr loc2 \<Rightarrow>
                 Inr (m1\<lparr>children := children m1 @
                         [Circle loc2 500 ''orange'' True ''orange'' 0.2]\<rparr>))"

text \<open>
  \<open>df.iloc[::k]\<close> for a step \<open>k > 0\<close>: the first row, then the first of what is left
  after \<open>k - 1\<close> more rows are dropped, and so on. The script's step is 5.
\<close>

fun iloc_step :: "'a list \<Rightarrow> nat \<Rightarrow> 'a list" where
  "iloc_step [] k = []"
| "iloc_step (x # xs) k = x # iloc_step (drop (k - 1) xs) k"

text \<open>
  The body of the \<open>try\<close> (lines 106 to 119). The address is computed and not used.
\<close>

definition highlighted_row_body ::
  "'g geolocator \<Rightarrow> py_float \<Rightarrow> series \<Rightarrow> 'g state \<Rightarrow> (exn + unit) \<times> 'g state" where
  "highlighted_row_body geo to_float row s =
     (case getitem row ''name'' of Inl e \<Rightarrow> (Inl e, s) | Inr name \<Rightarrow>
      case getitem row ''latitude'' of Inl e \<Rightarrow> (Inl e, s) | Inr lat \<Rightarrow>
      case getitem row ''longitude'' of Inl e \<Rightarrow> (Inl e, s) | Inr lon \<Rightarrow>
      case reverse_geocode_with_retry geo (lat, lon) 3 10 s of
        (Inl e, s1) \<Rightarrow> (Inl e, s1)
      | (Inr loc, s1) \<Rightarrow>
          let addr = (case loc of Some l \<Rightarrow> address l | None \<Rightarrow> ''Address not found'')
          in case add_circle_to_map to_float (map_obj s1) lat lon of
               Inl e \<Rightarrow> (Inl e, s1)
             | Inr m \<Rightarrow>
                 (Inr (), s1\<lparr>map_obj := m, stdout := stdout s1 @ [Circles_added_msg name]\<rparr>))"

text \<open>
  The handlers: \<open>except KeyError\<close> and \<open>except IndexError\<close> print and go on; any other
  exception, folium's \<open>ValueError\<close> too, leaves the loop.
\<close>

definition highlighted_row ::
  "'g geolocator \<Rightarrow> py_float \<Rightarrow> series \<Rightarrow> 'g state \<Rightarrow> (exn + unit) \<times> 'g state" where
  "highlighted_row geo to_float row s =
     (case highlighted_row_body geo to_float row s of
        (Inr u, s1) \<Rightarrow> (Inr (), s1)
      | (Inl e, s1) \<Rightarrow>
          (case e of
             KeyError k \<Rightarrow> (Inr (), s1\<lparr>stdout := stdout s1 @ [Column_not_found_msg k]\<rparr>)
           | IndexError \<Rightarrow> (Inr (), s1\<lparr>stdout := stdout s1 @ [Index_error_msg]\<rparr>)
           | _ \<Rightarrow> (Inl e, s1)))"

fun highlighted_rows ::
  "'g geolocator \<Rightarrow> py_float \<Rightarrow> series list \<Rightarrow> 'g state \<Rightarrow> (exn + unit) \<times> 'g state" where
  "highlighted_rows geo to_float [] s = (Inr (), s)"
| "highlighted_rows geo to_float (row # rows) s =
     (case highlighted_row geo to_float row s of
        (Inl e, s1) \<Rightarrow> (Inl e, s1)
      | (Inr u, s1) \<Rightarrow> highlighted_rows geo to_float rows s1)"

fun highlighted_batches ::
  "'g geolocator \<Rightarrow> py_float \<Rightarrow> series list \<Rightarrow> int \<Rightarrow> int list \<Rightarrow> 'g state
    \<Rightarrow> (exn + unit) \<times> 'g state" where
  "highlighted_batches geo to_float df batch_size [] s = (Inr (), s)"
| "highlighted_batches geo to_float df batch_size (first # starts) s =
     (let stop = min (first + batch_size) (int (length df));
          batch_df = iloc df first stop
      in case highlighted_rows geo to_float batch_df s of
           (Inl e, s1) \<Rightarrow> (Inl e, s1)
         | (Inr u, s1) \<Rightarrow> highlighted_batches geo to_float df batch_size starts (sleep 2 s1))"

definition highlighted_process_csv ::
  "'g geolocator \<Rightarrow> py_float \<Rightarrow> dataframe \<Rightarrow> int \<Rightarrow> 'g state \<Rightarrow> (exn + unit) \<times> 'g state" where
  "highlighted_process_csv geo to_float df batch_size s =
     (let s1 = s\<lparr>stdout := stdout s @ [Columns_msg (columns df), First_rows_msg,
                                        Head_msg (take 5 (data df))]\<rparr>;
          df_sampled = iloc_step (data df) 5;
          s2 = s1\<lparr>map_obj := create_map\<rparr>
      in case py_range 0 (int (length df_sampled)) batch_size of
           Inl e \<Rightarrow> (Inl e, s2)
         | Inr starts \<Rightarrow>
             (case highlighted_batches geo to_float df_sampled batch_size starts s2 of
                (Inl e, s3) \<Rightarrow> (Inl e, s3)
              | (Inr u, s3) \<Rightarrow>
                  (Inr (), s3\<lparr>files := files s3 @ [(''highlighted_map.html'', map_obj s3)],
                             stdout := stdout s3 @ [Saved_msg ''highlighted_map.html'']\<rparr>)))"

section \<open>Reading the effects of a run\<close>

text \<open>The effects a run from \<open>s\<close> to \<open>s'\<close> added.\<close>

definition emitted :: "'g state \<Rightarrow> 'g state \<Rightarrow> effect list" where
  "emitted s s' = drop (length (effects s)) (effects s')"

text \<open>The answers of the service calls among some effects, in order.\<close>

fun answers :: "effect list \<Rightarrow> reverse_result list" where
  "answers [] = []"
| "answers (Reverse c t r # es) = r # answers es"
| "answers (Sleep n # es) = answers es"

text \<open>The arguments of the sleeps among some effects, in order.\<close>

fun sleeps :: "effect list \<Rightarrow> nat list" where
  "sleeps [] = []"
| "sleeps (Reverse c t r # es) = sleeps es"
| "sleeps (Sleep n # es) = n # sleeps es"

text \<open>
  A scripted service for the concrete runs below: its state is the list of answers it
  has left, and it finds nothing (\<open>None\<close>) once the list is used up.
\<close>

fun scripted :: "(reverse_result list) geolocator" where
  "scripted [] c t = (Returns None, [])"
| "scripted (r # rs) c t = (r, rs)"

definition start :: "'g \<Rightarrow> 'g state" where
  "start g = \<lparr>service = g, map_obj = create_map, effects = [], stdout = [], files = []\<rparr>"

section \<open>crocodile\_capture\_data.py\<close>














section \<open>Notions the properties are stated with\<close>

text \<open>
  The first of the three fields, in the order the scripts read them, that a row does not
  have; \<open>None\<close> when it has all three.
\<close>

definition first_missing :: "series \<Rightarrow> string option" where
  "first_missing row =
     (if row ''name'' = None then Some ''name''
      else if row ''latitude'' = None then Some ''latitude''
      else if row ''longitude'' = None then Some ''longitude''
      else None)"

text \<open>
  Contiguous chunks: a list cut into pieces of \<open>n\<close> elements, the last one shorter
  when \<open>n\<close> does not divide the length.
\<close>

fun chunks :: "nat \<Rightarrow> 'a list \<Rightarrow> 'a list list" where
  "chunks n xs = (if n = 0 \<or> xs = [] then [] else take n xs # chunks n (drop n xs))"

declare chunks.simps [simp del]

text \<open>
  A run over chunks with exactly one \<open>time.sleep(2)\<close> between one chunk and the next:
  \<open>f\<close> processes one chunk, and an exception ends the run.
\<close>

fun separated ::
  "('a \<Rightarrow> 'g state \<Rightarrow> (exn + unit) \<times> 'g state) \<Rightarrow> 'a list \<Rightarrow> 'g state
    \<Rightarrow> (exn + unit) \<times> 'g state" where
  "separated f [] s = (Inr (), s)"
| "separated f [c] s = f c s"
| "separated f (c # c' # cs) s =
     (case f c s of
        (Inl e, s1) \<Rightarrow> (Inl e, s1)
      | (Inr u, s1) \<Rightarrow> separated f (c' # cs) (sleep 2 s1))"

text \<open>
  The state \<open>process_csv\<close> starts its loop in (the debugging prints made, the map
  created), and the state it ends in (the map saved under the script's file name).
\<close>

definition opened :: "dataframe \<Rightarrow> 'g state \<Rightarrow> 'g state" where
  "opened df s =
     s\<lparr>stdout := stdout s @ [Columns_msg (columns df), First_rows_msg,
                              Head_msg (take 5 (data df))],
       map_obj := create_map\<rparr>"

definition saved :: "string \<Rightarrow> 'g state \<Rightarrow> 'g state" where
  "saved name s =
     s\<lparr>files := files s @ [(name, map_obj s)], stdout := stdout s @ [Saved_msg name]\<rparr>"

text \<open>
  A service that raises nothing but the two exceptions the retry helper handles.
\<close>

definition calm :: "'g geolocator \<Rightarrow> bool" where
  "calm geo =
     (\<forall>g c t. case fst (geo g c t) of
        Returns loc \<Rightarrow> True
      | Raises e \<Rightarrow> e = GeocoderTimedOut \<or> e = GeocoderUnavailable)"

text \<open>An annotation is a marker with a popup at the coordinates of a row.\<close>

fun marker_of_row :: "annotation \<Rightarrow> series \<Rightarrow> bool" where
  "marker_of_row (Marker c p) row =
     (row ''latitude'' = Some (fst c) \<and> row ''longitude'' = Some (snd c) \<and> p \<noteq> None)"
| "marker_of_row (Circle c r col f fc fo) row = False"

text \<open>
  A row folium can plot: it has its three fields, and its coordinates are numbers.
\<close>

definition plottable :: "series \<Rightarrow> bool" where
  "plottable row =
     (row ''name'' \<noteq> None
      \<and> (case row ''latitude'' of Some (Num x) \<Rightarrow> True | _ \<Rightarrow> False)
      \<and> (case row ''longitude'' of Some (Num y) \<Rightarrow> True | _ \<Rightarrow> False))"

text \<open>The two circles of \<open>add_circle_to_map\<close> at the coordinates of such a row.\<close>

definition row_circles :: "series \<Rightarrow> annotation list" where
  "row_circles row =
     (case (row ''latitude'', row ''longitude'') of
        (Some (Num x), Some (Num y)) \<Rightarrow>
          [Circle (Num x, Num y) 200 ''red'' True ''red'' 0.3,
           Circle (Num x, Num y) 500 ''orange'' True ''orange'' 0.2]
      | _ \<Rightarrow> [])"


section \<open>Concrete inputs\<close>

text \<open>Answers for the scripted service, rows and DataFrames for the concrete runs.\<close>

definition three_timeouts :: "reverse_result list" where
  "three_timeouts = [Raises GeocoderTimedOut, Raises GeocoderTimedOut, Raises GeocoderTimedOut]"

definition timeout_then_unavailable :: "reverse_result list" where
  "timeout_then_unavailable =
     [Raises GeocoderTimedOut, Raises GeocoderUnavailable, Returns (Some (Location ''1 Croc St''))]"

definition site_a :: series where
  "site_a = [''name'' \<mapsto> Str ''Site A'', ''latitude'' \<mapsto> Num (-12.46),
             ''longitude'' \<mapsto> Num 130.84]"

definition no_latitude :: series where
  "no_latitude = [''name'' \<mapsto> Str ''Site B'', ''longitude'' \<mapsto> Num 130.84]"

definition no_latitude_c :: series where
  "no_latitude_c = [''name'' \<mapsto> Str ''Site C'', ''longitude'' \<mapsto> Num 131.5]"

text \<open>Rows with an empty cell: the cell is there, and its value is \<open>NaN\<close>.\<close>

definition empty_latitude :: series where
  "empty_latitude = [''name'' \<mapsto> Str ''Site B'', ''latitude'' \<mapsto> NaN,
                     ''longitude'' \<mapsto> Num 130.84]"

definition empty_name :: series where
  "empty_name = [''name'' \<mapsto> NaN, ''latitude'' \<mapsto> Num (-12.46),
                 ''longitude'' \<mapsto> Num 130.84]"

text \<open>
  For the concrete runs, whose coordinates are numbers or \<open>NaN\<close>: a \<open>float\<close> that is
  asked about no string.
\<close>

definition no_float :: py_float where
  "no_float t = None"

definition locations_csv :: dataframe where
  "locations_csv = \<lparr>columns = [''name'', ''latitude'', ''longitude''], data = [site_a]\<rparr>"

text \<open>
  A service whose state counts its calls: the first call times out, every later one
  finds an address.
\<close>

definition slow_start :: "nat geolocator" where
  "slow_start n c t =
     (if n = 0 then Raises GeocoderTimedOut else Returns (Some (Location ''1 Croc St'')), Suc n)"

definition site :: "real \<Rightarrow> series" where
  "site x = [''name'' \<mapsto> Str ''Site'', ''latitude'' \<mapsto> Num x, ''longitude'' \<mapsto> Num 130.84]"

definition six_sites :: dataframe where
  "six_sites = \<lparr>columns = [''name'', ''latitude'', ''longitude''],
                 data = [site 0, site 1, site 2, site 3, site 4, site 5]\<rparr>"

definition three_sites :: dataframe where
  "three_sites = \<lparr>columns = [''name'', ''latitude'', ''longitude''],
                   data = [site 0, site 1, site 2]\<rparr>"

definition duplicates_csv :: dataframe where
  "duplicates_csv = \<lparr>columns = [''name'', ''latitude'', ''longitude''],
                      data = [site_a, site_a]\<rparr>"

definition no_latitude_csv :: dataframe where
  "no_latitude_csv = \<lparr>columns = [''name'', ''longitude''], data = [no_latitude]\<rparr>"

definition no_latitude_two_csv :: dataframe where
  "no_latitude_two_csv =
     \<lparr>columns = [''name'', ''longitude''], data = [no_latitude, no_latitude_c]\<rparr>"

definition empty_latitude_csv :: dataframe where
  "empty_latitude_csv = \<lparr>columns = [''name'', ''latitude'', ''longitude''],
                          data = [empty_latitude, site_a]\<rparr>"

definition empty_name_csv :: dataframe where
  "empty_name_csv = \<lparr>columns = [''name'', ''latitude'', ''longitude''], data = [empty_name]\<rparr>"




section \<open>Properties of the retry helper\<close>

lemma answers_append: "answers (xs @ ys) = answers xs @ answers ys"
  by (induction xs rule: answers.induct) simp_all

lemma sleeps_append: "sleeps (xs @ ys) = sleeps xs @ sleeps ys"
  by (induction xs rule: sleeps.induct) simp_all

text \<open>
  What the loop adds to the effects: one call per attempt made, each but the last
  answered by a timeout and followed by the sleep of that attempt.
\<close>

lemma retry_loop_effects:
  "\<exists>evs. effects (snd (retry_loop geo c t as s)) = effects s @ evs
     \<and> length (answers evs) \<le> length as
     \<and> sum_list (sleeps evs) \<le> sum_list (map (\<lambda>a. 2 ^ a) as)
     \<and> (\<forall>i. Suc i < length (answers evs) \<longrightarrow> answers evs ! i = Raises GeocoderTimedOut)"
proof (induction as arbitrary: s)
  case Nil
  show ?case by simp
next
  case (Cons a as)
  obtain r g where rg: "geo (service s) c t = (r, g)"
    by (cases "geo (service s) c t")
  define s1 where "s1 = s\<lparr>service := g, effects := effects s @ [Reverse c t r]\<rparr>"
  show ?case
  proof (cases "r = Raises GeocoderTimedOut")
    case False
    then have "effects (snd (retry_loop geo c t (a # as) s)) = effects s @ [Reverse c t r]"
      using rg by (cases r) (simp_all add: Let_def)
    then show ?thesis
      by (intro exI [of _ "[Reverse c t r]"]) simp
  next
    case True
    define s2 where
      "s2 = s1\<lparr>stdout := stdout s1 @ [Timed_out_msg (a + 1)],
               effects := effects s1 @ [Sleep (2 ^ a)]\<rparr>"
    have step: "retry_loop geo c t (a # as) s = retry_loop geo c t as s2"
      using rg True by (simp add: s1_def s2_def Let_def)
    from Cons.IH [of s2] obtain evs where evs:
      "effects (snd (retry_loop geo c t as s2)) = effects s2 @ evs"
      "length (answers evs) \<le> length as"
      "sum_list (sleeps evs) \<le> sum_list (map (\<lambda>a. 2 ^ a) as)"
      "\<forall>i. Suc i < length (answers evs) \<longrightarrow> answers evs ! i = Raises GeocoderTimedOut"
      by blast
    have e2: "effects s2 = effects s @ [Reverse c t r, Sleep (2 ^ a)]"
      by (simp add: s1_def s2_def)
    let ?evs = "[Reverse c t r, Sleep (2 ^ a)] @ evs"
    have "effects (snd (retry_loop geo c t (a # as) s)) = effects s @ ?evs"
      using step evs(1) e2 by simp
    moreover have "length (answers ?evs) \<le> length (a # as)"
      using evs(2) by simp
    moreover have "sum_list (sleeps ?evs) \<le> sum_list (map (\<lambda>a. 2 ^ a) (a # as))"
      using evs(3) by simp
    moreover have
      "\<forall>i. Suc i < length (answers ?evs) \<longrightarrow> answers ?evs ! i = Raises GeocoderTimedOut"
    proof (intro allI impI)
      fix i
      assume i: "Suc i < length (answers ?evs)"
      show "answers ?evs ! i = Raises GeocoderTimedOut"
      proof (cases i)
        case 0
        then show ?thesis using True by simp
      next
        case (Suc j)
        then show ?thesis using i evs(4) by simp
      qed
    qed
    ultimately show ?thesis by blast
  qed
qed

lemma emitted_append: "effects s' = effects s @ evs \<Longrightarrow> emitted s s' = evs"
  by (simp add: emitted_def)

lemma sum_list_pow2_upt: "sum_list (map (\<lambda>a. 2 ^ a) [0..<n]) = (\<Sum>i<n. (2::nat) ^ i)"
  by (induction n) simp_all

text \<open>
  C1. Whatever the service answers, whatever the coordinates and \<open>retries\<close>, one run of
  \<open>reverse_geocode_with_retry\<close> calls the service at most \<open>retries\<close> times, and the
  arguments of the sleeps it asks for add up to at most \<open>2^0 + ... + 2^(retries-1)\<close>.
  For \<open>retries \<le> 0\<close> the loop has no pass, and both bounds are 0.
\<close>

theorem retry_attempts_and_backoff_bounded:
  assumes "reverse_geocode_with_retry geo c retries t s = (res, s')"
  shows "effects s' = effects s @ emitted s s'
    \<and> length (answers (emitted s s')) \<le> nat retries
    \<and> sum_list (sleeps (emitted s s')) \<le> (\<Sum>i<nat retries. 2 ^ i)"
proof -
  from retry_loop_effects [of geo c t "[0..<nat retries]" s] obtain evs where evs:
    "effects (snd (retry_loop geo c t [0..<nat retries] s)) = effects s @ evs"
    "length (answers evs) \<le> length [0..<nat retries]"
    "sum_list (sleeps evs) \<le> sum_list (map (\<lambda>a. 2 ^ a) [0..<nat retries])"
    by blast
  have s': "s' = snd (retry_loop geo c t [0..<nat retries] s)"
    using assms by (simp add: reverse_geocode_with_retry_def)
  have em: "emitted s s' = evs"
    using evs(1) s' by (simp add: emitted_append)
  show ?thesis
    using evs em s' by (simp add: sum_list_pow2_upt)
qed

theorem retry_attempts_and_backoff_bounded_witness:
  "fst (reverse_geocode_with_retry scripted (Num 1, Num 2) 3 10 (start three_timeouts)) = Inr None
   \<and> length (answers (emitted (start three_timeouts)
        (snd (reverse_geocode_with_retry scripted (Num 1, Num 2) 3 10 (start three_timeouts)))))
       \<le> nat 3
   \<and> sum_list (sleeps (emitted (start three_timeouts)
        (snd (reverse_geocode_with_retry scripted (Num 1, Num 2) 3 10 (start three_timeouts)))))
       \<le> (\<Sum>i<nat 3. 2 ^ i)"
  using retry_attempts_and_backoff_bounded [of scripted "(Num 1, Num 2)" 3 10
      "start three_timeouts"
      "fst (reverse_geocode_with_retry scripted (Num 1, Num 2) 3 10 (start three_timeouts))"
      "snd (reverse_geocode_with_retry scripted (Num 1, Num 2) 3 10 (start three_timeouts))"]
  by (simp add: reverse_geocode_with_retry_def start_def three_timeouts_def upt_rec emitted_def
      eval_nat_numeral)

text \<open>
  C2. If the answer to attempt \<open>k + 1\<close> of a run (the answer at index \<open>k\<close>) is
  \<open>GeocoderUnavailable\<close>, that attempt is the last call of the run, however many
  retries are left.
\<close>

theorem no_attempt_after_unavailable:
  assumes "reverse_geocode_with_retry geo c retries t s = (res, s')"
    and "k < length (answers (emitted s s'))"
    and "answers (emitted s s') ! k = Raises GeocoderUnavailable"
  shows "length (answers (emitted s s')) = Suc k"
proof -
  from retry_loop_effects [of geo c t "[0..<nat retries]" s] obtain evs where evs:
    "effects (snd (retry_loop geo c t [0..<nat retries] s)) = effects s @ evs"
    "\<forall>i. Suc i < length (answers evs) \<longrightarrow> answers evs ! i = Raises GeocoderTimedOut"
    by blast
  have "s' = snd (retry_loop geo c t [0..<nat retries] s)"
    using assms(1) by (simp add: reverse_geocode_with_retry_def)
  then have em: "emitted s s' = evs"
    using evs(1) by (simp add: emitted_append)
  have "\<not> Suc k < length (answers evs)"
    using evs(2) assms(3) em by auto
  then show ?thesis
    using assms(2) em by simp
qed

theorem no_attempt_after_unavailable_witness:
  "(1::nat) < length (answers (emitted (start timeout_then_unavailable)
       (snd (reverse_geocode_with_retry scripted (Num 1, Num 2) 3 10
              (start timeout_then_unavailable)))))
   \<and> answers (emitted (start timeout_then_unavailable)
       (snd (reverse_geocode_with_retry scripted (Num 1, Num 2) 3 10
              (start timeout_then_unavailable)))) ! 1
       = Raises GeocoderUnavailable
   \<and> length (answers (emitted (start timeout_then_unavailable)
       (snd (reverse_geocode_with_retry scripted (Num 1, Num 2) 3 10
              (start timeout_then_unavailable)))))
       = Suc 1"
  using no_attempt_after_unavailable [of scripted "(Num 1, Num 2)" 3 10
      "start timeout_then_unavailable"
      "fst (reverse_geocode_with_retry scripted (Num 1, Num 2) 3 10
             (start timeout_then_unavailable))"
      "snd (reverse_geocode_with_retry scripted (Num 1, Num 2) 3 10
             (start timeout_then_unavailable))" 1]
  by (simp add: reverse_geocode_with_retry_def start_def timeout_then_unavailable_def upt_rec
      emitted_def)

text \<open>
  C10. With \<open>retries \<le> 0\<close>, \<open>reverse_geocode_with_retry\<close> returns \<open>None\<close> and leaves the
  state as it was: no call of the service, no sleep.
\<close>

theorem no_retries_no_call:
  assumes "retries \<le> 0"
  shows "reverse_geocode_with_retry geo c retries t s = (Inr None, s)
    \<and> emitted s (snd (reverse_geocode_with_retry geo c retries t s)) = []"
  using assms by (simp add: reverse_geocode_with_retry_def emitted_def)

theorem no_retries_no_call_witness:
  "(0::int) \<le> 0
   \<and> reverse_geocode_with_retry scripted (Num 1, Num 2) 0 10 (start three_timeouts)
       = (Inr None, start three_timeouts)
   \<and> emitted (start three_timeouts)
        (snd (reverse_geocode_with_retry scripted (Num 1, Num 2) 0 10 (start three_timeouts)))
       = []"
  using no_retries_no_call [of 0 scripted "(Num 1, Num 2)" 10 "start three_timeouts"]
  by (simp add: emitted_def)

section \<open>Properties of one row\<close>

lemma combined_row_body_missing:
  "first_missing row = Some k \<Longrightarrow> combined_row_body geo fl row s = (Inl (KeyError k), s)"
  by (auto simp: first_missing_def combined_row_body_def getitem_def split: if_splits)

lemma highlighted_row_body_missing:
  "first_missing row = Some k \<Longrightarrow> highlighted_row_body geo fl row s = (Inl (KeyError k), s)"
  by (auto simp: first_missing_def highlighted_row_body_def getitem_def split: if_splits)

lemma first_missing_no_latitude: "first_missing no_latitude = Some ''latitude''"
  by (simp add: first_missing_def no_latitude_def)

text \<open>
  C5, as the code has it. In both map scripts a row that does not have the label \<open>name\<close>,
  \<open>latitude\<close> or \<open>longitude\<close> only prints "Column not found": the map, the service and the
  effects stay as they were, no exception leaves the row, and the loop goes on with the
  rows after it. The labels of a row are the columns of the file, so such a row is a row of
  a file without that column, and the other rows of the file are like it.
\<close>

theorem missing_field_row_is_skipped:
  assumes "row ''name'' = None \<or> row ''latitude'' = None \<or> row ''longitude'' = None"
  shows "\<exists>k. first_missing row = Some k
    \<and> combined_row geo fl row s = (Inr (), s\<lparr>stdout := stdout s @ [Column_not_found_msg k]\<rparr>)
    \<and> combined_rows geo fl (row # rows) s
        = combined_rows geo fl rows (s\<lparr>stdout := stdout s @ [Column_not_found_msg k]\<rparr>)
    \<and> highlighted_row geo fl row s
        = (Inr (), s\<lparr>stdout := stdout s @ [Column_not_found_msg k]\<rparr>)
    \<and> highlighted_rows geo fl (row # rows) s
        = highlighted_rows geo fl rows (s\<lparr>stdout := stdout s @ [Column_not_found_msg k]\<rparr>)"
proof -
  from assms have "first_missing row \<noteq> None"
    by (auto simp: first_missing_def)
  then obtain k where k: "first_missing row = Some k"
    by blast
  then show ?thesis
    by (simp add: combined_row_def highlighted_row_def combined_row_body_missing
        highlighted_row_body_missing)
qed

lemma first_missing_no_latitude_c: "first_missing no_latitude_c = Some ''latitude''"
  by (simp add: first_missing_def no_latitude_c_def)

theorem missing_field_row_is_skipped_witness:
  "no_latitude ''latitude'' = None \<and> no_latitude_c ''latitude'' = None
   \<and> children (map_obj (snd (combined_row scripted no_float no_latitude (start [])))) = []
   \<and> effects (snd (combined_row scripted no_float no_latitude (start []))) = []
   \<and> children (map_obj (snd (highlighted_row scripted no_float no_latitude (start [])))) = []
   \<and> combined_rows scripted no_float (data no_latitude_two_csv) (start [])
      = (Inr (), (start [])\<lparr>stdout := [Column_not_found_msg ''latitude'',
                                          Column_not_found_msg ''latitude'']\<rparr>)"
proof -
  let ?s0 = "start ([] :: reverse_result list)"
  let ?s1 = "?s0\<lparr>stdout := stdout ?s0 @ [Column_not_found_msg ''latitude'']\<rparr>"
  have a: "no_latitude ''latitude'' = None" and c: "no_latitude_c ''latitude'' = None"
    by (simp_all add: no_latitude_def no_latitude_c_def)
  from missing_field_row_is_skipped [of no_latitude scripted no_float ?s0 "[no_latitude_c]"] a
  have 1: "combined_row scripted no_float no_latitude ?s0 = (Inr (), ?s1)"
    "highlighted_row scripted no_float no_latitude ?s0 = (Inr (), ?s1)"
    "combined_rows scripted no_float [no_latitude, no_latitude_c] ?s0
        = combined_rows scripted no_float [no_latitude_c] ?s1"
    using first_missing_no_latitude by auto
  from missing_field_row_is_skipped [of no_latitude_c scripted no_float ?s1 "[]"] c
  have 2: "combined_rows scripted no_float [no_latitude_c] ?s1
        = (Inr (), ?s1\<lparr>stdout := stdout ?s1 @ [Column_not_found_msg ''latitude'']\<rparr>)"
    using first_missing_no_latitude_c by auto
  have "combined_rows scripted no_float (data no_latitude_two_csv) ?s0
      = (Inr (), ?s1\<lparr>stdout := stdout ?s1 @ [Column_not_found_msg ''latitude'']\<rparr>)"
    using 1(3) 2 by (simp only: no_latitude_two_csv_def dataframe.simps)
  then show ?thesis
    using a c 1(1,2) by (simp add: start_def create_map_def)
qed

text \<open>
  C5 as stated fails for a row whose field is there and empty. A row with an empty
  \<open>latitude\<close> has the value \<open>NaN\<close> there: no \<open>KeyError\<close> is raised, the lookup is made, and
  folium refuses the location with \<open>ValueError\<close>, which no handler catches: the run ends
  there, the row after it is never looked up, and no map is saved. It is so in both map
  scripts, and also when the service itself refuses the coordinates with \<open>ValueError\<close>.
  A row with an empty \<open>name\<close> is not skipped either: it gets its marker.
\<close>

theorem empty_cell_row_counterexample:
  "fst (combined_process_csv scripted no_float empty_latitude_csv 100 (start [])) = Inl ValueError
   \<and> effects (snd (combined_process_csv scripted no_float empty_latitude_csv 100 (start [])))
       = [Reverse (NaN, Num 130.84) 10 (Returns None)]
   \<and> files (snd (combined_process_csv scripted no_float empty_latitude_csv 100 (start []))) = []
   \<and> fst (highlighted_process_csv scripted no_float empty_latitude_csv 100 (start []))
       = Inl ValueError
   \<and> files (snd (highlighted_process_csv scripted no_float empty_latitude_csv 100 (start [])))
       = []
   \<and> combined_process_csv scripted no_float empty_latitude_csv 100 (start [Raises ValueError])
       = (Inl ValueError,
          (start [])\<lparr>effects := [Reverse (NaN, Num 130.84) 10 (Raises ValueError)],
                      stdout := [Columns_msg [''name'', ''latitude'', ''longitude''],
                                 First_rows_msg, Head_msg [empty_latitude, site_a]]\<rparr>)
   \<and> children (map_obj (snd (combined_process_csv scripted no_float empty_name_csv 100
        (start []))))
       = [Marker (Num (-12.46), Num 130.84) (Some (Popup ''Address: Address not found'' 300))]"
  by (simp add: empty_latitude_csv_def empty_name_csv_def combined_process_csv_def py_range_def
      highlighted_process_csv_def highlighted_row_def highlighted_row_body_def
      add_circle_to_map_def
      iloc_def slice_bound_def Let_def combined_row_def combined_row_body_def getitem_def
      empty_latitude_def empty_name_def site_a_def reverse_geocode_with_retry_def upt_rec
      add_marker_to_map_def validate_location_def validate_coord_def create_map_def sleep_def
      start_def)

lemma py_range_one: "0 < B \<Longrightarrow> py_range 0 1 B = Inr [0]"
  by (simp add: py_range_def upt_rec)

lemma retry_first_returns:
  "geo (service s) c t = (Returns loc, g) \<Longrightarrow> 0 < retries \<Longrightarrow>
   reverse_geocode_with_retry geo c retries t s
     = (Inr loc, s\<lparr>service := g, effects := effects s @ [Reverse c t (Returns loc)]\<rparr>)"
  by (simp add: reverse_geocode_with_retry_def upt_rec [of 0])

text \<open>
  C8. The row \<open>{name: "Site A", latitude: -12.46, longitude: 130.84}\<close>, with a service
  that answers the first call with the address "123 Example Rd": the combined-map script
  ends without an exception, and the map it saves has exactly one annotation, a marker at
  \<open>(-12.46, 130.84)\<close> with the popup text "Address: 123 Example Rd". This holds for
  every positive batch size, so for the default 100.
\<close>

theorem site_a_example:
  assumes "geo (service s) (Num (-12.46), Num 130.84) 10
             = (Returns (Some (Location ''123 Example Rd'')), g)"
    and "0 < batch_size"
  shows "\<exists>s'. combined_process_csv geo fl locations_csv batch_size s = (Inr (), s')
    \<and> children (map_obj s')
        = [Marker (Num (-12.46), Num 130.84) (Some (Popup ''Address: 123 Example Rd'' 300))]
    \<and> files s' = files s @ [(''combined_map.html'', map_obj s')]"
  using assms
  by (simp add: combined_process_csv_def locations_csv_def py_range_one iloc_def slice_bound_def
      combined_row_def combined_row_body_def getitem_def site_a_def retry_first_returns
      add_marker_to_map_def validate_location_def validate_coord_def create_map_def sleep_def
      Let_def)

theorem site_a_example_witness:
  "scripted (service (start [Returns (Some (Location ''123 Example Rd''))])) (Num (-12.46), Num 130.84) 10
     = (Returns (Some (Location ''123 Example Rd'')), [])
   \<and> (0::int) < 100
   \<and> fst (combined_process_csv scripted no_float locations_csv 100 (start [Returns (Some (Location ''123 Example Rd''))])) = Inr ()
   \<and> children (map_obj (snd (combined_process_csv scripted no_float locations_csv 100 (start [Returns (Some (Location ''123 Example Rd''))]))))
       = [Marker (Num (-12.46), Num 130.84) (Some (Popup ''Address: 123 Example Rd'' 300))]"
  using site_a_example [of scripted "start [Returns (Some (Location ''123 Example Rd''))]" "[]" 100
      no_float]
  by (auto simp: start_def)

text \<open>
  A run of the retry helper whose last call was answered by \<open>GeocoderUnavailable\<close>
  returns \<open>None\<close>.
\<close>

lemma retry_loop_emitted:
  "effects (snd (retry_loop geo c t as s)) = effects s @ emitted s (snd (retry_loop geo c t as s))"
  using retry_loop_effects [of geo c t as s] by (auto simp: emitted_def)

lemma retry_loop_last_unavailable:
  "retry_loop geo c t as s = (res, s') \<Longrightarrow> answers (emitted s s') \<noteq> [] \<Longrightarrow>
   last (answers (emitted s s')) = Raises GeocoderUnavailable \<Longrightarrow> res = Inr None"
proof (induction as arbitrary: s)
  case Nil
  then show ?case by (simp add: emitted_def)
next
  case (Cons a as)
  obtain r g where rg: "geo (service s) c t = (r, g)"
    by (cases "geo (service s) c t")
  define s1 where "s1 = s\<lparr>service := g, effects := effects s @ [Reverse c t r]\<rparr>"
  show ?case
  proof (cases "r = Raises GeocoderTimedOut")
    case True
    define s2 where
      "s2 = s1\<lparr>stdout := stdout s1 @ [Timed_out_msg (a + 1)],
               effects := effects s1 @ [Sleep (2 ^ a)]\<rparr>"
    have step: "retry_loop geo c t as s2 = (res, s')"
      using rg True Cons.prems(1) by (simp add: s1_def s2_def Let_def)
    have "effects s' = effects s2 @ emitted s2 s'"
      using retry_loop_emitted [of geo c t as s2] step by simp
    moreover have "effects s2 = effects s @ [Reverse c t r, Sleep (2 ^ a)]"
      by (simp add: s1_def s2_def)
    ultimately have "emitted s s' = [Reverse c t r, Sleep (2 ^ a)] @ emitted s2 s'"
      by (intro emitted_append) simp
    then have ans: "answers (emitted s s') = r # answers (emitted s2 s')"
      by simp
    have "answers (emitted s2 s') \<noteq> []"
      using Cons.prems(3) ans True by auto
    moreover have "last (answers (emitted s2 s')) = Raises GeocoderUnavailable"
      using Cons.prems(3) ans calculation by simp
    ultimately show ?thesis
      using Cons.IH [OF step] by blast
  next
    case False
    show ?thesis
    proof (cases r)
      case (Returns loc)
      then have "s' = s1"
        using rg Cons.prems(1) by (simp add: s1_def Let_def)
      then have "answers (emitted s s') = [r]"
        by (simp add: s1_def emitted_def)
      then show ?thesis
        using Cons.prems(3) Returns by simp
    next
      case (Raises e)
      show ?thesis
      proof (cases "e = GeocoderUnavailable")
        case True
        then show ?thesis
          using rg Raises Cons.prems(1) by (simp add: Let_def)
      next
        case ne: False
        then have "s' = s1"
          using rg Raises False Cons.prems(1) by (simp add: s1_def Let_def)
        then have "answers (emitted s s') = [r]"
          by (simp add: s1_def emitted_def)
        then show ?thesis
          using Cons.prems(3) Raises ne by simp
      qed
    qed
  qed
qed

lemma validate_location_error: "validate_location fl lat lon = Inl e \<Longrightarrow> e = ValueError"
  by (auto simp: validate_location_def validate_coord_def
      split: sum.splits cell.splits option.splits)

lemma validate_location_numbers: "validate_location fl (Num x) (Num y) = Inr (Num x, Num y)"
  by (simp add: validate_location_def validate_coord_def)

lemma validate_location_NaN:
  "lat = NaN \<or> lon = NaN \<Longrightarrow> validate_location fl lat lon = Inl ValueError"
  by (auto simp: validate_location_def validate_coord_def
      split: sum.splits cell.splits option.splits)

text \<open>
  C7, as the code has it. A row with its three fields, and a lookup that ended on
  \<open>GeocoderUnavailable\<close>: the lookup returns \<open>None\<close>, and what the combined-map script does
  next is for folium to decide. Where folium takes the location, the script adds one marker
  there, and the marker has a popup, with the text "Address: Address not found"; so it is
  for a row whose coordinates are numbers. Where folium refuses the location, as it does an
  empty cell (\<open>NaN\<close>), \<open>ValueError\<close> leaves the row and no marker is added.
\<close>

theorem unavailable_service_marker_says_not_found:
  assumes "row ''name'' = Some name" and "row ''latitude'' = Some lat"
    and "row ''longitude'' = Some lon"
    and "reverse_geocode_with_retry geo (lat, lon) 3 10 s = (res, s1)"
    and "answers (emitted s s1) \<noteq> []"
    and "last (answers (emitted s s1)) = Raises GeocoderUnavailable"
  shows "res = Inr None
    \<and> combined_row geo fl row s =
        (case validate_location fl lat lon of
           Inl e \<Rightarrow> (Inl ValueError, s1)
         | Inr loc \<Rightarrow>
             (Inr (), s1\<lparr>map_obj := (map_obj s1)\<lparr>children := children (map_obj s1) @
                           [Marker loc (Some (Popup ''Address: Address not found'' 300))]\<rparr>,
                         stdout := stdout s1 @ [Marker_added_msg name]\<rparr>))
    \<and> (\<forall>x y. lat = Num x \<and> lon = Num y \<longrightarrow>
          combined_row geo fl row s =
            (Inr (), s1\<lparr>map_obj := (map_obj s1)\<lparr>children := children (map_obj s1) @
                          [Marker (Num x, Num y)
                             (Some (Popup ''Address: Address not found'' 300))]\<rparr>,
                        stdout := stdout s1 @ [Marker_added_msg name]\<rparr>))
    \<and> (lat = NaN \<or> lon = NaN \<longrightarrow> combined_row geo fl row s = (Inl ValueError, s1))"
proof -
  have res: "res = Inr None"
    using retry_loop_last_unavailable [of geo "(lat, lon)" 10 "[0..<nat 3]" s res s1] assms(4-6)
    by (simp add: reverse_geocode_with_retry_def)
  have run: "combined_row geo fl row s =
        (case validate_location fl lat lon of
           Inl e \<Rightarrow> (Inl ValueError, s1)
         | Inr loc \<Rightarrow>
             (Inr (), s1\<lparr>map_obj := (map_obj s1)\<lparr>children := children (map_obj s1) @
                           [Marker loc (Some (Popup ''Address: Address not found'' 300))]\<rparr>,
                         stdout := stdout s1 @ [Marker_added_msg name]\<rparr>))"
  proof (cases "validate_location fl lat lon")
    case (Inl e)
    then have "e = ValueError"
      by (rule validate_location_error)
    then show ?thesis
      using Inl res assms(1-4)
      by (simp add: combined_row_def combined_row_body_def getitem_def add_marker_to_map_def)
  next
    case (Inr loc)
    then show ?thesis
      using res assms(1-4)
      by (simp add: combined_row_def combined_row_body_def getitem_def add_marker_to_map_def)
  qed
  show ?thesis
    using res run by (auto simp: validate_location_numbers validate_location_NaN)
qed

theorem unavailable_service_marker_says_not_found_witness:
  "site_a ''name'' = Some (Str ''Site A'')
   \<and> answers (emitted (start timeout_then_unavailable)
        (snd (reverse_geocode_with_retry scripted (Num (-12.46), Num 130.84) 3 10
               (start timeout_then_unavailable))))
       = [Raises GeocoderTimedOut, Raises GeocoderUnavailable]
   \<and> fst (reverse_geocode_with_retry scripted (Num (-12.46), Num 130.84) 3 10
               (start timeout_then_unavailable)) = Inr None
   \<and> children (map_obj (snd (combined_row scripted no_float site_a
        (start timeout_then_unavailable))))
       = [Marker (Num (-12.46), Num 130.84) (Some (Popup ''Address: Address not found'' 300))]
   \<and> fst (combined_row scripted no_float empty_latitude (start [Raises GeocoderUnavailable]))
       = Inl ValueError
   \<and> children (map_obj (snd (combined_row scripted no_float empty_latitude
        (start [Raises GeocoderUnavailable])))) = []"
  using unavailable_service_marker_says_not_found [of site_a "Str ''Site A''" "Num (-12.46)"
      "Num 130.84" scripted "start timeout_then_unavailable"
      "fst (reverse_geocode_with_retry scripted (Num (-12.46), Num 130.84) 3 10
             (start timeout_then_unavailable))"
      "snd (reverse_geocode_with_retry scripted (Num (-12.46), Num 130.84) 3 10
             (start timeout_then_unavailable))" no_float]
  by (simp add: site_a_def reverse_geocode_with_retry_def start_def timeout_then_unavailable_def
      upt_rec emitted_def create_map_def validate_location_numbers)
    (simp add: combined_row_def combined_row_body_def getitem_def empty_latitude_def
      reverse_geocode_with_retry_def upt_rec add_marker_to_map_def validate_location_def
      validate_coord_def)

text \<open>
  C7 as stated fails: with the service unavailable, the marker of the row of C8 carries the
  popup "Address: Address not found"; it is not a marker without a popup.
\<close>

theorem unavailable_service_label_counterexample:
  "children (map_obj (snd (combined_row scripted no_float site_a
      (start [Raises GeocoderUnavailable]))))
     = [Marker (Num (-12.46), Num 130.84) (Some (Popup ''Address: Address not found'' 300))]
   \<and> children (map_obj (snd (combined_row scripted no_float site_a
      (start [Raises GeocoderUnavailable]))))
     \<noteq> [Marker (Num (-12.46), Num 130.84) None]"
  by (simp add: combined_row_def combined_row_body_def getitem_def site_a_def
      reverse_geocode_with_retry_def upt_rec start_def create_map_def add_marker_to_map_def
      validate_location_def validate_coord_def)

section \<open>Chunks, ranges and slices\<close>

lemma chunks_Nil [simp]: "chunks n [] = []"
  by (simp add: chunks.simps)

lemma chunks_step: "0 < n \<Longrightarrow> xs \<noteq> [] \<Longrightarrow> chunks n xs = take n xs # chunks n (drop n xs)"
  by (subst chunks.simps) simp

lemma concat_chunks: "0 < n \<Longrightarrow> concat (chunks n xs) = xs"
proof (induction n xs rule: chunks.induct)
  case (1 n xs)
  show ?case
  proof (cases "xs = []")
    case True then show ?thesis by simp
  next
    case False
    then show ?thesis using 1 by (simp add: chunks_step)
  qed
qed

lemma ceil_div_step:
  fixes n m :: nat
  assumes "0 < n" "0 < m"
  shows "(m + n - 1) div n = Suc ((m - n + n - 1) div n)"
proof (cases "n \<le> m")
  case True
  have a: "m - n + n - 1 = m - 1"
    using True by simp
  have b: "m + n - 1 = (m - 1) + n"
    using assms by simp
  have "(m + n - 1) div n = ((m - 1) + n) div n"
    by (rule arg_cong [OF b])
  also have "\<dots> = Suc ((m - 1) div n)"
  proof -
    have "n \<noteq> 0" using assms by simp
    from div_add_self2 [OF this, of "m - 1"] show ?thesis
      by (simp only: Suc_eq_plus1)
  qed
  finally show ?thesis
    by (simp only: a)
next
  case False
  have a: "(m - n + n - 1) div n = 0"
    using False assms by simp
  have "n * 1 \<le> m + n - 1" "m + n - 1 < n * Suc 1"
    using False assms by simp_all
  then have "(m + n - 1) div n = 1"
    by (rule div_nat_eqI)
  then show ?thesis
    unfolding a by simp
qed

lemma chunks_slices:
  "0 < n \<Longrightarrow> chunks n xs = map (\<lambda>i. take n (drop (i * n) xs)) [0..<(length xs + n - 1) div n]"
proof (induction n xs rule: chunks.induct)
  case (1 n xs)
  show ?case
  proof (cases "xs = []")
    case True then show ?thesis using 1(2) by simp
  next
    case False
    have len: "(length xs + n - 1) div n = Suc ((length xs - n + n - 1) div n)"
      using ceil_div_step [of n "length xs"] 1(2) False by simp
    have "chunks n xs = take n xs # chunks n (drop n xs)"
      using 1(2) False by (simp add: chunks_step)
    also have "chunks n (drop n xs)
        = map (\<lambda>i. take n (drop (i * n) (drop n xs))) [0..<(length xs - n + n - 1) div n]"
      using 1 False by simp
    finally have "chunks n xs = take n xs #
        map (\<lambda>i. take n (drop (i * n) (drop n xs))) [0..<(length xs - n + n - 1) div n]" .
    moreover have "map (\<lambda>i. take n (drop (i * n) xs)) [0..<Suc ((length xs - n + n - 1) div n)]
        = take n xs # map (\<lambda>i. take n (drop (Suc i * n) xs)) [0..<(length xs - n + n - 1) div n]"
      by (simp add: map_upt_Suc del: upt_Suc)
    moreover have "\<And>i. drop (i * n) (drop n xs) = drop (Suc i * n) xs"
      by (simp add: add.commute)
    ultimately show ?thesis
      by (simp only: len)
  qed
qed

lemma length_chunks: "0 < n \<Longrightarrow> length (chunks n xs) = (length xs + n - 1) div n"
  by (simp add: chunks_slices)

lemma ceil_nat:
  fixes n m :: nat
  assumes "0 < n"
  shows "nat \<lceil>real m / real n\<rceil> = (m + n - 1) div n"
proof -
  define k where "k = (m + n - 1) div n"
  have "k * n \<le> m + n - 1"
    unfolding k_def by simp
  then have lo: "k * n < m + n"
    using assms by linarith
  have "m + n - 1 < k * n + n"
    unfolding k_def using assms dividend_less_div_times [of n "m + n - 1"] by simp
  then have hi: "m \<le> k * n"
    using assms by linarith
  have "real (k * n) < real (m + n)"
    using lo by (rule of_nat_less_iff [THEN iffD2])
  then have a: "real k - 1 < real m / real n"
    using assms by (simp add: field_simps)
  have "real m \<le> real (k * n)"
    using hi by (rule of_nat_le_iff [THEN iffD2])
  then have b: "real m / real n \<le> real k"
    using assms by (simp add: field_simps)
  have "\<lceil>real m / real n\<rceil> = int k"
    using a b by (intro ceiling_unique) simp_all
  then show ?thesis
    by (simp add: k_def)
qed

lemma batch_starts:
  assumes "0 < B"
  shows "py_range 0 (int N) B = Inr (map (\<lambda>k. int k * B) [0..<(N + nat B - 1) div nat B])"
proof -
  define b where "b = nat B"
  have B: "B = int b" and b: "0 < b"
    using assms by (simp_all add: b_def)
  have "int N + int b - 1 = int (N + b - 1)"
    using b by (simp add: of_nat_diff)
  then have "(int N + int b - 1) div int b = int ((N + b - 1) div b)"
    by (simp only: zdiv_int)
  then have "nat ((int N - 0 + B - 1) div B) = (N + b - 1) div b"
    by (simp add: B)
  then show ?thesis
    using assms by (simp add: py_range_def b_def)
qed

lemma batch_slice:
  "iloc xs (int k * int b) (min (int k * int b + int b) (int (length xs)))
     = take b (drop (k * b) xs)"
proof -
  define a where "a = k * b"
  have e: "int k * int b = int a"
    by (simp add: a_def)
  have "iloc xs (int a) (min (int a + int b) (int (length xs))) = take b (drop a xs)"
  proof (cases "a \<le> length xs")
    case True
    have "min (int a + int b) (int (length xs)) = int (min (a + b) (length xs))"
      by simp
    moreover have "nat (int (min (a + b) (length xs)) - int a) = min (a + b) (length xs) - a"
      by arith
    ultimately have "iloc xs (int a) (min (int a + int b) (int (length xs)))
        = take (min (a + b) (length xs) - a) (drop a xs)"
      using True by (simp add: iloc_def slice_bound_def Let_def del: of_nat_min of_nat_add)
    also have "min (a + b) (length xs) - a = min b (length xs - a)"
      using True by simp
    also have "take (min b (length xs - a)) (drop a xs) = take b (drop a xs)"
      by (simp add: min_def)
    finally show ?thesis .
  next
    case False
    then show ?thesis
      by (simp add: iloc_def slice_bound_def Let_def)
  qed
  then show ?thesis
    by (simp only: e a_def)
qed

lemma batches_are_chunks:
  assumes "0 < B" and "py_range 0 (int (length xs)) B = Inr starts"
  shows "map (\<lambda>f. iloc xs f (min (f + B) (int (length xs)))) starts = chunks (nat B) xs"
proof -
  define b where "b = nat B"
  have B: "B = int b" and b: "0 < b"
    using assms by (simp_all add: b_def)
  have "starts = map (\<lambda>k. int k * B) [0..<(length xs + b - 1) div b]"
    using batch_starts [OF assms(1), of "length xs"] assms(2) by (simp add: b_def)
  then show ?thesis
    by (simp add: chunks_slices [OF b] B batch_slice o_def)
qed

lemma iloc_step_nth:
  "0 < k \<Longrightarrow> iloc_step xs k = map (\<lambda>i. xs ! (i * k)) [0..<(length xs + k - 1) div k]"
proof (induction xs k rule: iloc_step.induct)
  case (1 k)
  then show ?case by simp
next
  case (2 x xs k)
  let ?ys = "drop (k - 1) xs"
  have len: "(length (x # xs) + k - 1) div k = Suc ((length ?ys + k - 1) div k)"
    using ceil_div_step [of k "length (x # xs)"] 2(2) by simp
  have nth: "\<And>i. i < (length ?ys + k - 1) div k \<Longrightarrow> (x # xs) ! (Suc i * k) = ?ys ! (i * k)"
  proof -
    fix i
    assume i: "i < (length ?ys + k - 1) div k"
    have "k - 1 \<le> length xs"
    proof (rule ccontr)
      assume "\<not> k - 1 \<le> length xs"
      then have "(length ?ys + k - 1) div k = 0"
        using 2(2) by simp
      then show False using i by simp
    qed
    then have "?ys ! (i * k) = xs ! ((k - 1) + i * k)"
      by simp
    moreover have "Suc i * k = Suc ((k - 1) + i * k)"
      using 2(2) by simp
    ultimately show "(x # xs) ! (Suc i * k) = ?ys ! (i * k)"
      by (simp del: mult_Suc)
  qed
  have "iloc_step (x # xs) k = x # map (\<lambda>i. ?ys ! (i * k)) [0..<(length ?ys + k - 1) div k]"
    using 2 by simp
  also have "map (\<lambda>i. ?ys ! (i * k)) [0..<(length ?ys + k - 1) div k]
      = map (\<lambda>i. (x # xs) ! (Suc i * k)) [0..<(length ?ys + k - 1) div k]"
    using nth by (intro map_cong) simp_all
  finally show ?case
    by (simp only: len map_upt_Suc) simp
qed

section \<open>The batch loop\<close>

text \<open>
  The loop of \<open>process_csv\<close> over the starts \<open>range(0, len(df), batch_size)\<close> is a run
  over the slices \<open>df.iloc[start:end]\<close> with one sleep between one slice and the next,
  and one more sleep after the last.
\<close>

lemma combined_batches_separated:
  "starts \<noteq> [] \<Longrightarrow>
   combined_batches geo fl df B starts s =
     (case separated (combined_rows geo fl)
             (map (\<lambda>f. iloc df f (min (f + B) (int (length df)))) starts) s of
        (Inl e, s1) \<Rightarrow> (Inl e, s1)
      | (Inr u, s1) \<Rightarrow> (Inr (), sleep 2 s1))"
proof (induction starts arbitrary: s)
  case Nil
  then show ?case by simp
next
  case (Cons f starts)
  show ?case
  proof (cases starts)
    case Nil
    then show ?thesis
      by (simp add: Let_def split: prod.splits sum.splits)
  next
    case (Cons f' starts')
    then show ?thesis
      using Cons.IH by (simp add: Let_def split: prod.splits sum.splits)
  qed
qed

lemma highlighted_batches_separated:
  "starts \<noteq> [] \<Longrightarrow>
   highlighted_batches geo fl df B starts s =
     (case separated (highlighted_rows geo fl)
             (map (\<lambda>f. iloc df f (min (f + B) (int (length df)))) starts) s of
        (Inl e, s1) \<Rightarrow> (Inl e, s1)
      | (Inr u, s1) \<Rightarrow> (Inr (), sleep 2 s1))"
proof (induction starts arbitrary: s)
  case Nil
  then show ?case by simp
next
  case (Cons f starts)
  show ?case
  proof (cases starts)
    case Nil
    then show ?thesis
      by (simp add: Let_def split: prod.splits sum.splits)
  next
    case (Cons f' starts')
    then show ?thesis
      using Cons.IH by (simp add: Let_def split: prod.splits sum.splits)
  qed
qed

lemma chunks_nonempty: "0 < n \<Longrightarrow> xs \<noteq> [] \<Longrightarrow> chunks n xs \<noteq> []"
  by (simp add: chunks_step)

lemma combined_process_csv_chunks:
  assumes "0 < B" and "data df \<noteq> []"
  shows "combined_process_csv geo fl df B s =
     (case separated (combined_rows geo fl) (chunks (nat B) (data df)) (opened df s) of
        (Inl e, s1) \<Rightarrow> (Inl e, s1)
      | (Inr u, s1) \<Rightarrow> (Inr (), saved ''combined_map.html'' (sleep 2 s1)))"
proof -
  obtain starts where st: "py_range 0 (int (length (data df))) B = Inr starts"
    using batch_starts [OF assms(1)] by blast
  have ch: "map (\<lambda>f. iloc (data df) f (min (f + B) (int (length (data df))))) starts
      = chunks (nat B) (data df)"
    using batches_are_chunks [OF assms(1) st] .
  have "starts \<noteq> []"
    using ch chunks_nonempty [of "nat B" "data df"] assms by auto
  then show ?thesis
    using st ch
    by (simp add: combined_process_csv_def combined_batches_separated opened_def saved_def Let_def
        split: prod.splits sum.splits)
qed

lemma highlighted_process_csv_chunks:
  assumes "0 < B" and "data df \<noteq> []"
  shows "highlighted_process_csv geo fl df B s =
     (case separated (highlighted_rows geo fl) (chunks (nat B) (iloc_step (data df) 5)) (opened df s) of
        (Inl e, s1) \<Rightarrow> (Inl e, s1)
      | (Inr u, s1) \<Rightarrow> (Inr (), saved ''highlighted_map.html'' (sleep 2 s1)))"
proof -
  let ?rows = "iloc_step (data df) 5"
  obtain starts where st: "py_range 0 (int (length ?rows)) B = Inr starts"
    using batch_starts [OF assms(1)] by blast
  have ch: "map (\<lambda>f. iloc ?rows f (min (f + B) (int (length ?rows)))) starts
      = chunks (nat B) ?rows"
    using batches_are_chunks [OF assms(1) st] .
  have "?rows \<noteq> []"
    using assms(2) by (cases "data df") simp_all
  then have "starts \<noteq> []"
    using ch chunks_nonempty [of "nat B" ?rows] assms by auto
  then show ?thesis
    using st ch
    by (simp add: highlighted_process_csv_def highlighted_batches_separated opened_def saved_def
        Let_def split: prod.splits sum.splits)
qed

text \<open>
  C3, as the code has it. For a positive batch size: a list of \<open>N\<close> rows has
  \<open>ceil(N / batch_size)\<close> chunks, chunk \<open>i\<close> is the rows from \<open>i * batch_size\<close> on
  (\<open>batch_size\<close> of them, fewer in the last chunk), and the chunks put together are the
  rows. On a DataFrame with at least one row, the combined-map script processes the chunks
  of its rows in order, with exactly one \<open>time.sleep(2)\<close> between one chunk and the next; the
  highlighted-map script does the same with the chunks of the rows it sampled
  (\<open>df.iloc[::5]\<close>). An exception that leaves a chunk ends the run there. What follows the
  last chunk is not between two chunks: the loop sleeps once more, and the map is saved.
\<close>

theorem batches_are_contiguous_chunks:
  assumes "0 < B" and "data df \<noteq> []"
  shows "length (chunks (nat B) xs) = nat \<lceil>real (length xs) / real_of_int B\<rceil>
    \<and> concat (chunks (nat B) xs) = xs
    \<and> (\<forall>i<length (chunks (nat B) xs).
          chunks (nat B) xs ! i = take (nat B) (drop (i * nat B) xs))
    \<and> combined_process_csv geo fl df B s =
        (case separated (combined_rows geo fl) (chunks (nat B) (data df)) (opened df s) of
           (Inl e, s1) \<Rightarrow> (Inl e, s1)
         | (Inr u, s1) \<Rightarrow> (Inr (), saved ''combined_map.html'' (sleep 2 s1)))
    \<and> highlighted_process_csv geo fl df B s =
        (case separated (highlighted_rows geo fl) (chunks (nat B) (iloc_step (data df) 5))
                (opened df s) of
           (Inl e, s1) \<Rightarrow> (Inl e, s1)
         | (Inr u, s1) \<Rightarrow> (Inr (), saved ''highlighted_map.html'' (sleep 2 s1)))"
proof -
  have b: "0 < nat B"
    using assms(1) by simp
  have "real (nat B) = real_of_int B"
    using assms(1) by simp
  then have "length (chunks (nat B) xs) = nat \<lceil>real (length xs) / real_of_int B\<rceil>"
    using length_chunks [OF b, of xs] ceil_nat [OF b, of "length xs"] by simp
  moreover have "concat (chunks (nat B) xs) = xs"
    using b by (rule concat_chunks)
  moreover have "\<forall>i<length (chunks (nat B) xs).
      chunks (nat B) xs ! i = take (nat B) (drop (i * nat B) xs)"
    by (simp add: chunks_slices [OF b])
  ultimately show ?thesis
    using combined_process_csv_chunks [OF assms, of geo fl s]
      highlighted_process_csv_chunks [OF assms, of geo fl s]
    by simp
qed

lemma chunks_three_sites: "chunks (nat 2) (data three_sites) = [[site 0, site 1], [site 2]]"
  by (simp add: three_sites_def chunks.simps)

theorem batches_are_contiguous_chunks_witness:
  "(0::int) < 2 \<and> data three_sites \<noteq> []
   \<and> chunks (nat 2) (data three_sites) = [[site 0, site 1], [site 2]]
   \<and> length (chunks (nat 2) (data three_sites))
       = nat \<lceil>real (length (data three_sites)) / real_of_int 2\<rceil>
   \<and> combined_process_csv scripted no_float three_sites 2 (start []) =
        (case separated (combined_rows scripted no_float) (chunks (nat 2) (data three_sites))
                (opened three_sites (start [])) of
           (Inl e, s1) \<Rightarrow> (Inl e, s1)
         | (Inr u, s1) \<Rightarrow> (Inr (), saved ''combined_map.html'' (sleep 2 s1)))"
proof -
  have b: "(0::int) < 2"
    by simp
  have n: "data three_sites \<noteq> []"
    by (simp add: three_sites_def)
  from batches_are_contiguous_chunks [OF b n, of "data three_sites" scripted no_float "start []"]
  show ?thesis
    using b n chunks_three_sites by blast
qed

text \<open>
  C3 as stated fails for a batch size that is not positive, and for the highlighted-map
  script. With \<open>batch_size = 0\<close>, \<open>range\<close> raises \<open>ValueError\<close> before any row is
  processed. With six rows and \<open>batch_size = 1\<close>, the highlighted-map script processes
  two chunks (the rows 0 and 5), not \<open>ceil(6 / 1) = 6\<close>.
\<close>

theorem batches_counterexample:
  "data locations_csv \<noteq> []
   \<and> fst (combined_process_csv scripted no_float locations_csv 0 (start [])) = Inl ValueError
   \<and> effects (snd (combined_process_csv scripted no_float locations_csv 0 (start []))) = []
   \<and> length (data six_sites) = 6
   \<and> effects (snd (highlighted_process_csv scripted no_float six_sites 1 (start [])))
       = [Reverse (Num 0, Num 130.84) 10 (Returns None), Sleep 2,
          Reverse (Num 5, Num 130.84) 10 (Returns None), Sleep 2]"
  by (simp add: locations_csv_def six_sites_def combined_process_csv_def
      highlighted_process_csv_def py_range_def iloc_def slice_bound_def Let_def
      highlighted_row_def highlighted_row_body_def
      getitem_def site_def reverse_geocode_with_retry_def upt_rec eval_nat_numeral
      add_circle_to_map_def validate_location_def validate_coord_def create_map_def sleep_def
      start_def)

section \<open>Plottable rows and a calm service\<close>

lemma calm_cases:
  assumes "calm geo" and "geo g c t = (r, g')"
  shows "(\<exists>loc. r = Returns loc) \<or> r = Raises GeocoderTimedOut \<or> r = Raises GeocoderUnavailable"
proof -
  have "case fst (geo g c t) of Returns loc \<Rightarrow> True
        | Raises e \<Rightarrow> e = GeocoderTimedOut \<or> e = GeocoderUnavailable"
    using assms(1) unfolding calm_def by blast
  then show ?thesis
    using assms(2) by (cases r) auto
qed

lemma calm_retry_loop:
  "calm geo \<Longrightarrow>
   \<exists>loc s'. retry_loop geo c t as s = (Inr loc, s') \<and> map_obj s' = map_obj s
      \<and> files s' = files s"
proof (induction as arbitrary: s)
  case Nil
  then show ?case by simp
next
  case (Cons a as)
  obtain r g where rg: "geo (service s) c t = (r, g)"
    by (cases "geo (service s) c t")
  define s1 where "s1 = s\<lparr>service := g, effects := effects s @ [Reverse c t r]\<rparr>"
  define s2 where
    "s2 = s1\<lparr>stdout := stdout s1 @ [Timed_out_msg (a + 1)],
             effects := effects s1 @ [Sleep (2 ^ a)]\<rparr>"
  from calm_cases [OF Cons.prems rg] consider
    (ret) loc where "r = Returns loc" | (tmo) "r = Raises GeocoderTimedOut"
    | (una) "r = Raises GeocoderUnavailable"
    by blast
  then show ?case
  proof cases
    case ret
    then show ?thesis using rg by (simp add: Let_def)
  next
    case tmo
    then have "retry_loop geo c t (a # as) s = retry_loop geo c t as s2"
      using rg by (simp add: s1_def s2_def Let_def)
    moreover have "map_obj s2 = map_obj s" "files s2 = files s"
      by (simp_all add: s1_def s2_def)
    ultimately show ?thesis
      using Cons.IH [OF Cons.prems, of s2] by auto
  next
    case una
    then show ?thesis using rg by (simp add: Let_def)
  qed
qed

lemma plottable_fields:
  "plottable row \<Longrightarrow>
   \<exists>name x y. row ''name'' = Some name \<and> row ''latitude'' = Some (Num x)
      \<and> row ''longitude'' = Some (Num y)"
  by (auto simp: plottable_def split: option.splits cell.splits)

lemma combined_row_complete:
  assumes "calm geo" and "plottable row"
  shows "\<exists>s' m. combined_row geo fl row s = (Inr (), s')
     \<and> children (map_obj s') = children (map_obj s) @ [m] \<and> marker_of_row m row
     \<and> files s' = files s"
proof -
  from plottable_fields [OF assms(2)] obtain name x y where
    f: "row ''name'' = Some name" "row ''latitude'' = Some (Num x)"
      "row ''longitude'' = Some (Num y)"
    by blast
  from calm_retry_loop [OF assms(1), of "(Num x, Num y)" 10 "[0..<nat 3]" s] obtain loc s1 where
    r: "reverse_geocode_with_retry geo (Num x, Num y) 3 10 s = (Inr loc, s1)"
      "map_obj s1 = map_obj s" "files s1 = files s"
    by (auto simp: reverse_geocode_with_retry_def)
  show ?thesis
    using f r
    by (simp add: combined_row_def combined_row_body_def getitem_def add_marker_to_map_def
        validate_location_numbers Let_def)
qed

lemma combined_rows_complete:
  assumes "calm geo"
  shows "\<forall>row\<in>set rows. plottable row \<Longrightarrow>
    \<exists>s' ms. combined_rows geo fl rows s = (Inr (), s')
     \<and> children (map_obj s') = children (map_obj s) @ ms \<and> list_all2 marker_of_row ms rows
     \<and> files s' = files s"
proof (induction rows arbitrary: s)
  case Nil
  then show ?case by simp
next
  case (Cons row rows)
  from combined_row_complete [OF assms, where row = row and s = s and fl = fl] Cons.prems obtain s1 m where
    1: "combined_row geo fl row s = (Inr (), s1)"
      "children (map_obj s1) = children (map_obj s) @ [m]" "marker_of_row m row"
      "files s1 = files s"
    by auto
  from Cons.IH [of s1] Cons.prems obtain s' ms where
    2: "combined_rows geo fl rows s1 = (Inr (), s')"
      "children (map_obj s') = children (map_obj s1) @ ms" "list_all2 marker_of_row ms rows"
      "files s' = files s1"
    by auto
  have "combined_rows geo fl (row # rows) s = (Inr (), s')"
    using 1(1) 2(1) by simp
  moreover have "children (map_obj s') = children (map_obj s) @ (m # ms)"
    using 1(2) 2(2) by simp
  moreover have "list_all2 marker_of_row (m # ms) (row # rows)"
    using 1(3) 2(3) by simp
  moreover have "files s' = files s"
    using 1(4) 2(4) by simp
  ultimately show ?case by blast
qed

lemma combined_separated_complete:
  assumes "calm geo"
  shows "\<forall>row\<in>set (concat cs). plottable row \<Longrightarrow>
    \<exists>s' ms. separated (combined_rows geo fl) cs s = (Inr (), s')
     \<and> children (map_obj s') = children (map_obj s) @ ms
     \<and> list_all2 marker_of_row ms (concat cs) \<and> files s' = files s"
proof (induction cs arbitrary: s)
  case Nil
  then show ?case by simp
next
  case (Cons c cs)
  from combined_rows_complete [OF assms, where rows = c and s = s and fl = fl] Cons.prems obtain s1 ms1 where
    1: "combined_rows geo fl c s = (Inr (), s1)"
      "children (map_obj s1) = children (map_obj s) @ ms1" "list_all2 marker_of_row ms1 c"
      "files s1 = files s"
    by auto
  show ?case
  proof (cases cs)
    case Nil
    then show ?thesis using 1 by auto
  next
    case (Cons c' cs')
    from Cons.IH [of "sleep 2 s1"] Cons.prems obtain s' ms where
      2: "separated (combined_rows geo fl) cs (sleep 2 s1) = (Inr (), s')"
        "children (map_obj s') = children (map_obj (sleep 2 s1)) @ ms"
        "list_all2 marker_of_row ms (concat cs)" "files s' = files (sleep 2 s1)"
      by auto
    have "separated (combined_rows geo fl) (c # cs) s = (Inr (), s')"
      using 1(1) 2(1) Cons by simp
    moreover have "children (map_obj s') = children (map_obj s) @ (ms1 @ ms)"
      using 1(2) 2(2) by (simp add: sleep_def)
    moreover have "list_all2 marker_of_row (ms1 @ ms) (concat (c # cs))"
      using 1(3) 2(3) by (simp add: list_all2_appendI)
    moreover have "files s' = files s"
      using 1(4) 2(4) by (simp add: sleep_def)
    ultimately show ?thesis by blast
  qed
qed

lemma highlighted_row_complete:
  assumes "calm geo" and "plottable row"
  shows "\<exists>s'. highlighted_row geo fl row s = (Inr (), s')
     \<and> children (map_obj s') = children (map_obj s) @ row_circles row
     \<and> length (row_circles row) = 2 \<and> files s' = files s"
proof -
  from plottable_fields [OF assms(2)] obtain name x y where
    f: "row ''name'' = Some name" "row ''latitude'' = Some (Num x)"
      "row ''longitude'' = Some (Num y)"
    by blast
  from calm_retry_loop [OF assms(1), of "(Num x, Num y)" 10 "[0..<nat 3]" s] obtain loc s1 where
    r: "reverse_geocode_with_retry geo (Num x, Num y) 3 10 s = (Inr loc, s1)"
      "map_obj s1 = map_obj s" "files s1 = files s"
    by (auto simp: reverse_geocode_with_retry_def)
  show ?thesis
    using f r
    by (simp add: highlighted_row_def highlighted_row_body_def getitem_def add_circle_to_map_def
        validate_location_numbers row_circles_def Let_def)
qed

lemma highlighted_rows_complete:
  assumes "calm geo"
  shows "\<forall>row\<in>set rows. plottable row \<Longrightarrow>
    \<exists>s'. highlighted_rows geo fl rows s = (Inr (), s')
     \<and> children (map_obj s') = children (map_obj s) @ concat (map row_circles rows)
     \<and> length (concat (map row_circles rows)) = 2 * length rows
     \<and> files s' = files s"
proof (induction rows arbitrary: s)
  case Nil
  then show ?case by simp
next
  case (Cons row rows)
  from highlighted_row_complete [OF assms, where row = row and s = s and fl = fl] Cons.prems obtain s1 where
    1: "highlighted_row geo fl row s = (Inr (), s1)"
      "children (map_obj s1) = children (map_obj s) @ row_circles row"
      "length (row_circles row) = 2" "files s1 = files s"
    by auto
  from Cons.IH [of s1] Cons.prems obtain s' where
    2: "highlighted_rows geo fl rows s1 = (Inr (), s')"
      "children (map_obj s') = children (map_obj s1) @ concat (map row_circles rows)"
      "length (concat (map row_circles rows)) = 2 * length rows"
      "files s' = files s1"
    by auto
  have "highlighted_rows geo fl (row # rows) s = (Inr (), s')"
    using 1(1) 2(1) by simp
  moreover have "children (map_obj s')
      = children (map_obj s) @ concat (map row_circles (row # rows))"
    using 1(2) 2(2) by simp
  moreover have "length (concat (map row_circles (row # rows))) = 2 * length (row # rows)"
    using 1(3) 2(3) by simp
  moreover have "files s' = files s"
    using 1(4) 2(4) by simp
  ultimately show ?case by blast
qed

lemma highlighted_separated_complete:
  assumes "calm geo"
  shows "\<forall>row\<in>set (concat cs). plottable row \<Longrightarrow>
    \<exists>s'. separated (highlighted_rows geo fl) cs s = (Inr (), s')
     \<and> children (map_obj s') = children (map_obj s) @ concat (map row_circles (concat cs))
     \<and> files s' = files s"
proof (induction cs arbitrary: s)
  case Nil
  then show ?case by simp
next
  case (Cons c cs)
  from highlighted_rows_complete [OF assms, where rows = c and s = s and fl = fl] Cons.prems obtain s1 where
    1: "highlighted_rows geo fl c s = (Inr (), s1)"
      "children (map_obj s1) = children (map_obj s) @ concat (map row_circles c)"
      "files s1 = files s"
    by auto
  show ?case
  proof (cases cs)
    case Nil
    then show ?thesis using 1 by auto
  next
    case tl: (Cons c' cs')
    from Cons.IH [of "sleep 2 s1"] Cons.prems obtain s' where
      2: "separated (highlighted_rows geo fl) cs (sleep 2 s1) = (Inr (), s')"
        "children (map_obj s')
           = children (map_obj (sleep 2 s1)) @ concat (map row_circles (concat cs))"
        "files s' = files (sleep 2 s1)"
      by auto
    have "separated (highlighted_rows geo fl) (c # cs) s = (Inr (), s')"
      using 1(1) 2(1) tl by simp
    moreover have "children (map_obj s')
        = children (map_obj s) @ concat (map row_circles (concat (c # cs)))"
      using 1(2) 2(2) by (simp add: sleep_def)
    moreover have "files s' = files s"
      using 1(3) 2(3) by (simp add: sleep_def)
    ultimately show ?thesis by blast
  qed
qed

lemma process_csv_empty:
  "data df = [] \<Longrightarrow> 0 < B \<Longrightarrow>
   combined_process_csv geo fl df B s = (Inr (), saved ''combined_map.html'' (opened df s))
   \<and> highlighted_process_csv geo fl df B s = (Inr (), saved ''highlighted_map.html'' (opened df s))"
  by (simp add: combined_process_csv_def highlighted_process_csv_def py_range_def opened_def
      saved_def)

text \<open>
  C6, as the code has it. When every row has its three fields, with numbers for its
  coordinates, the service raises nothing but timeouts and unavailability, and the batch
  size is positive, the combined-map script ends without an exception and the map it saves
  has exactly one marker per row, in the order of the rows, each at the coordinates of its
  row: rows with the same coordinates get a marker each.
\<close>

theorem one_marker_per_complete_record:
  assumes "0 < B" and "calm geo" and "\<forall>row\<in>set (data df). plottable row"
  shows "\<exists>s'. combined_process_csv geo fl df B s = (Inr (), s')
     \<and> list_all2 marker_of_row (children (map_obj s')) (data df)
     \<and> length (children (map_obj s')) = length (data df)
     \<and> files s' = files s @ [(''combined_map.html'', map_obj s')]"
proof (cases "data df = []")
  case True
  then show ?thesis
    using process_csv_empty [OF True assms(1), of geo fl s]
    by (simp add: saved_def opened_def create_map_def)
next
  case False
  have "\<forall>row\<in>set (concat (chunks (nat B) (data df))). plottable row"
    using assms(1,3) by (simp add: concat_chunks)
  from combined_separated_complete [OF assms(2) this, where s = "opened df s" and fl = fl] obtain s1 ms where
    1: "separated (combined_rows geo fl) (chunks (nat B) (data df)) (opened df s) = (Inr (), s1)"
      "children (map_obj s1) = children (map_obj (opened df s)) @ ms"
      "list_all2 marker_of_row ms (concat (chunks (nat B) (data df)))"
      "files s1 = files (opened df s)"
    by blast
  have ms: "list_all2 marker_of_row ms (data df)" "children (map_obj s1) = ms"
    using 1(2,3) assms(1) by (simp_all add: concat_chunks opened_def create_map_def)
  let ?s' = "saved ''combined_map.html'' (sleep 2 s1)"
  have "combined_process_csv geo fl df B s = (Inr (), ?s')"
    using combined_process_csv_chunks [OF assms(1) False, of geo fl s] 1(1) by simp
  moreover have "children (map_obj ?s') = ms"
    using ms(2) by (simp add: saved_def sleep_def)
  moreover have "files ?s' = files s @ [(''combined_map.html'', map_obj ?s')]"
    using 1(4) by (simp add: saved_def sleep_def opened_def)
  ultimately show ?thesis
    using ms(1) list_all2_lengthD [OF ms(1)] by auto
qed

lemma calm_slow_start: "calm slow_start"
  by (simp add: calm_def slow_start_def)

lemma plottable_site: "plottable (site x)"
  by (simp add: plottable_def site_def)

lemma sampled_six: "iloc_step (data six_sites) 5 = [site 0, site 5]"
  by (simp add: six_sites_def eval_nat_numeral)

theorem one_marker_per_complete_record_witness:
  "(0::int) < 100 \<and> calm slow_start
   \<and> data duplicates_csv = [site_a, site_a]
   \<and> fst (combined_process_csv slow_start no_float duplicates_csv 100 (start 0)) = Inr ()
   \<and> length (children (map_obj (snd (combined_process_csv slow_start no_float duplicates_csv 100
        (start 0))))) = 2
   \<and> list_all2 marker_of_row
        (children (map_obj (snd (combined_process_csv slow_start no_float duplicates_csv 100 (start 0)))))
        [site_a, site_a]"
proof -
  have b: "(0::int) < 100"
    by simp
  have h: "\<forall>row\<in>set (data duplicates_csv). plottable row"
    by (simp add: duplicates_csv_def plottable_def site_a_def)
  from one_marker_per_complete_record [OF b calm_slow_start h, where s = "start 0" and fl = no_float] obtain s' where
    "combined_process_csv slow_start no_float duplicates_csv 100 (start 0) = (Inr (), s')"
    "list_all2 marker_of_row (children (map_obj s')) (data duplicates_csv)"
    "length (children (map_obj s')) = length (data duplicates_csv)"
    by blast
  then show ?thesis
    by (simp add: calm_slow_start duplicates_csv_def)
qed

text \<open>
  C6 as stated fails: a record set whose one row has no \<open>latitude\<close> gives a map with no
  annotation in the combined-map script, and a record set of one complete row gives two
  annotations (the two circles) in the highlighted-map script.
\<close>

theorem one_annotation_per_record_counterexample:
  "length (data no_latitude_csv) = 1
   \<and> children (map_obj (snd (combined_process_csv scripted no_float no_latitude_csv 100 (start [])))) = []
   \<and> length (data locations_csv) = 1
   \<and> length (children (map_obj (snd (highlighted_process_csv scripted no_float locations_csv 100
        (start []))))) = 2"
  by (simp add: no_latitude_csv_def locations_csv_def combined_process_csv_def
      highlighted_process_csv_def py_range_def iloc_def slice_bound_def Let_def
      combined_row_def combined_row_body_def highlighted_row_def highlighted_row_body_def
      getitem_def no_latitude_def site_a_def reverse_geocode_with_retry_def upt_rec
      add_circle_to_map_def validate_location_def validate_coord_def create_map_def sleep_def
      start_def)

section \<open>The highlighted map\<close>

lemma retry_loop_map_obj:
  "map_obj (snd (retry_loop geo c t as s)) = map_obj s"
proof (induction as arbitrary: s)
  case Nil
  show ?case by simp
next
  case (Cons a as)
  obtain r g where rg: "geo (service s) c t = (r, g)"
    by (cases "geo (service s) c t")
  show ?case
    using rg Cons.IH by (cases r) (simp_all add: Let_def)
qed

lemma validate_location_Inr:
  "validate_location fl lat lon = Inr loc \<Longrightarrow> \<exists>x y. loc = (Num x, Num y)"
  by (auto simp: validate_location_def split: sum.splits)

lemma highlighted_row_body_success:
  assumes "highlighted_row_body geo fl row s = (Inr u, s1)"
  shows "\<exists>lat lon x y. row ''latitude'' = Some lat \<and> row ''longitude'' = Some lon
     \<and> validate_location fl lat lon = Inr (Num x, Num y)
     \<and> children (map_obj s1) = children (map_obj s) @
          [Circle (Num x, Num y) 200 ''red'' True ''red'' 0.3,
           Circle (Num x, Num y) 500 ''orange'' True ''orange'' 0.2]"
proof -
  obtain name lat lon where
    f: "row ''name'' = Some name" "row ''latitude'' = Some lat" "row ''longitude'' = Some lon"
    using assms
    by (auto simp: highlighted_row_body_def getitem_def split: option.splits)
  obtain res s2 where r: "reverse_geocode_with_retry geo (lat, lon) 3 10 s = (res, s2)"
    by (cases "reverse_geocode_with_retry geo (lat, lon) 3 10 s")
  have m: "map_obj s2 = map_obj s"
    using retry_loop_map_obj [of geo "(lat, lon)" 10 "[0..<nat 3]" s] r
    by (simp add: reverse_geocode_with_retry_def)
  obtain loc where res: "res = Inr loc"
    using assms f r by (cases res) (simp_all add: highlighted_row_body_def getitem_def)
  show ?thesis
  proof (cases "validate_location fl lat lon")
    case (Inl e)
    then show ?thesis
      using assms f r res
      by (simp add: highlighted_row_body_def getitem_def add_circle_to_map_def)
  next
    case (Inr c)
    then obtain x y where c: "c = (Num x, Num y)"
      using validate_location_Inr by blast
    have "children (map_obj s1) = children (map_obj s) @
          [Circle (Num x, Num y) 200 ''red'' True ''red'' 0.3,
           Circle (Num x, Num y) 500 ''orange'' True ''orange'' 0.2]"
      using assms f r res Inr c m
      by (auto simp: highlighted_row_body_def getitem_def add_circle_to_map_def Let_def)
    then show ?thesis
      using f Inr c by blast
  qed
qed

lemma ceil_nat_5: "(n + 5 - 1) div 5 = nat \<lceil>real n / 5\<rceil>"
  using ceil_nat [of 5 n] by simp

text \<open>
  C9. In the highlighted-map script the rows processed are \<open>df.iloc[::5]\<close>: there are
  \<open>ceil(N / 5)\<close> of them, and the \<open>i\<close>-th is row \<open>5 * i\<close> of the input. A row whose
  \<open>try\<close> body ends without an exception has added exactly two circles at its coordinates,
  as folium reads them, one of radius 200 and one of radius 500. When every sampled row has
  its three fields, with numbers for its coordinates, the service raises nothing but
  timeouts and unavailability, and the batch size is positive (the script's is 100), the
  run ends without an exception and the map it saves has exactly the two circles of each
  sampled row: \<open>2 * ceil(N / 5)\<close> circles.
\<close>

theorem every_fifth_row_two_circles:
  assumes "0 < B" and "calm geo"
    and "\<forall>row\<in>set (iloc_step (data df) 5). plottable row"
  shows "length (iloc_step (data df) 5) = nat \<lceil>real (length (data df)) / 5\<rceil>
     \<and> (\<forall>i<length (iloc_step (data df) 5). iloc_step (data df) 5 ! i = data df ! (i * 5))
     \<and> (\<forall>row s0 u s1. highlighted_row_body geo fl row s0 = (Inr u, s1) \<longrightarrow>
          (\<exists>lat lon x y. row ''latitude'' = Some lat \<and> row ''longitude'' = Some lon
             \<and> validate_location fl lat lon = Inr (Num x, Num y)
             \<and> children (map_obj s1) = children (map_obj s0) @
                  [Circle (Num x, Num y) 200 ''red'' True ''red'' 0.3,
                   Circle (Num x, Num y) 500 ''orange'' True ''orange'' 0.2]))
     \<and> (\<exists>s'. highlighted_process_csv geo fl df B s = (Inr (), s')
          \<and> children (map_obj s') = concat (map row_circles (iloc_step (data df) 5))
          \<and> length (children (map_obj s')) = 2 * nat \<lceil>real (length (data df)) / 5\<rceil>
          \<and> files s' = files s @ [(''highlighted_map.html'', map_obj s')])"
proof -
  let ?rows = "iloc_step (data df) 5"
  have len: "length ?rows = nat \<lceil>real (length (data df)) / 5\<rceil>"
    using iloc_step_nth [of 5 "data df"] ceil_nat_5 [of "length (data df)"] by simp
  have nth: "\<forall>i<length ?rows. ?rows ! i = data df ! (i * 5)"
    using iloc_step_nth [of 5 "data df"] by simp
  have body: "\<forall>row s0 u s1. highlighted_row_body geo fl row s0 = (Inr u, s1) \<longrightarrow>
          (\<exists>lat lon x y. row ''latitude'' = Some lat \<and> row ''longitude'' = Some lon
             \<and> validate_location fl lat lon = Inr (Num x, Num y)
             \<and> children (map_obj s1) = children (map_obj s0) @
                  [Circle (Num x, Num y) 200 ''red'' True ''red'' 0.3,
                   Circle (Num x, Num y) 500 ''orange'' True ''orange'' 0.2])"
    using highlighted_row_body_success by blast
  have run: "\<exists>s'. highlighted_process_csv geo fl df B s = (Inr (), s')
          \<and> children (map_obj s') = concat (map row_circles ?rows)
          \<and> length (children (map_obj s')) = 2 * nat \<lceil>real (length (data df)) / 5\<rceil>
          \<and> files s' = files s @ [(''highlighted_map.html'', map_obj s')]"
  proof (cases "data df = []")
    case True
    then show ?thesis
      using process_csv_empty [OF True assms(1), of geo fl s]
      by (simp add: saved_def opened_def create_map_def)
  next
    case False
    have "\<forall>row\<in>set (concat (chunks (nat B) ?rows)). plottable row"
      using assms(1,3) by (simp add: concat_chunks)
    from highlighted_separated_complete [OF assms(2) this, where s = "opened df s" and fl = fl] obtain s1 where
      1: "separated (highlighted_rows geo fl) (chunks (nat B) ?rows) (opened df s) = (Inr (), s1)"
        "children (map_obj s1) = children (map_obj (opened df s))
           @ concat (map row_circles (concat (chunks (nat B) ?rows)))"
        "files s1 = files (opened df s)"
      by blast
    have ch: "children (map_obj s1) = concat (map row_circles ?rows)"
      using 1(2) assms(1) by (simp add: concat_chunks opened_def create_map_def)
    have l2: "length (concat (map row_circles ?rows)) = 2 * length ?rows"
      using highlighted_rows_complete [OF assms(2,3), where s = s and fl = fl] by blast
    let ?s' = "saved ''highlighted_map.html'' (sleep 2 s1)"
    have "highlighted_process_csv geo fl df B s = (Inr (), ?s')"
      using highlighted_process_csv_chunks [OF assms(1) False, of geo fl s] 1(1) by simp
    moreover have "children (map_obj ?s') = concat (map row_circles ?rows)"
      using ch by (simp add: saved_def sleep_def)
    moreover have "files ?s' = files s @ [(''highlighted_map.html'', map_obj ?s')]"
      using 1(3) by (simp add: saved_def sleep_def opened_def)
    ultimately show ?thesis
      using l2 len by auto
  qed
  show ?thesis
    using len nth body run by blast
qed

theorem every_fifth_row_two_circles_witness:
  "(0::int) < 100 \<and> calm slow_start
   \<and> iloc_step (data six_sites) 5 = [site 0, site 5]
   \<and> fst (highlighted_process_csv slow_start no_float six_sites 100 (start 0)) = Inr ()
   \<and> children (map_obj (snd (highlighted_process_csv slow_start no_float six_sites 100 (start 0))))
      = [Circle (Num 0, Num 130.84) 200 ''red'' True ''red'' 0.3,
         Circle (Num 0, Num 130.84) 500 ''orange'' True ''orange'' 0.2,
         Circle (Num 5, Num 130.84) 200 ''red'' True ''red'' 0.3,
         Circle (Num 5, Num 130.84) 500 ''orange'' True ''orange'' 0.2]
   \<and> length (children (map_obj (snd (highlighted_process_csv slow_start no_float six_sites 100 (start 0)))))
      = 2 * nat \<lceil>real (length (data six_sites)) / 5\<rceil>"
proof -
  have b: "(0::int) < 100"
    by simp
  have h: "\<forall>row\<in>set (iloc_step (data six_sites) 5). plottable row"
    by (simp add: sampled_six plottable_site)
  from every_fifth_row_two_circles [OF b calm_slow_start h, where s = "start 0" and fl = no_float] obtain s' where
    "highlighted_process_csv slow_start no_float six_sites 100 (start 0) = (Inr (), s')"
    "children (map_obj s') = concat (map row_circles (iloc_step (data six_sites) 5))"
    "length (children (map_obj s')) = 2 * nat \<lceil>real (length (data six_sites)) / 5\<rceil>"
    by blast
  then show ?thesis
    by (simp add: calm_slow_start sampled_six row_circles_def site_def)
qed

section \<open>The capture data\<close>

















end
